theory Spec2Isabelle
  imports Main "HOL-Library.Multiset"
begin

section \<open>JavaScript strings\<close>

text \<open>
  A JavaScript string is modelled by a \<open>string\<close>: a list of characters, one per code
  unit (Latin-1 text).  The functions below are the methods of \<open>String.prototype\<close> that the
  sources call; \<open>indexOf\<close> answers \<open>None\<close> where JavaScript answers \<open>-1\<close>.
\<close>

definition startsWith :: "string \<Rightarrow> string \<Rightarrow> bool" where
  "startsWith s p = (take (length p) s = p)"

definition endsWith :: "string \<Rightarrow> string \<Rightarrow> bool" where
  "endsWith s p = (length p \<le> length s \<and> drop (length s - length p) s = p)"

fun indexOf :: "string \<Rightarrow> string \<Rightarrow> nat option" where
  "indexOf [] p = (if p = [] then Some 0 else None)"
| "indexOf (c # cs) p =
     (if startsWith (c # cs) p then Some 0 else map_option Suc (indexOf cs p))"

definition indexOfFrom :: "string \<Rightarrow> string \<Rightarrow> nat \<Rightarrow> nat option" where
  "indexOfFrom s p pos =
     map_option (\<lambda>i. i + min pos (length s)) (indexOf (drop pos s) p)"

definition includes_str :: "string \<Rightarrow> string \<Rightarrow> bool" where
  "includes_str s p = (indexOf s p \<noteq> None)"

definition substring :: "string \<Rightarrow> nat \<Rightarrow> nat \<Rightarrow> string" where
  "substring s a b = (if a \<le> b then take (b - a) (drop a s) else take (a - b) (drop b s))"

definition is_space :: "char \<Rightarrow> bool" where
  "is_space c = (c \<in> set [CHR 0x09, CHR 0x0A, CHR 0x0B, CHR 0x0C, CHR 0x0D, CHR 0x20, CHR 0xA0])"

definition trim :: "string \<Rightarrow> string" where
  "trim s = rev (dropWhile is_space (rev (dropWhile is_space s)))"

text \<open>
  \<open>s.split(sep)\<close> for a string separator.  \<open>split_go\<close> walks the string once: \<open>k\<close> counts
  the characters of a separator still to be skipped, \<open>acc\<close> is the current piece, reversed.
\<close>

fun split_go :: "string \<Rightarrow> nat \<Rightarrow> string \<Rightarrow> string \<Rightarrow> string list" where
  "split_go sep k acc [] = [rev acc]"
| "split_go sep k acc (c # cs) =
     (if 0 < k then split_go sep (k - 1) acc cs
      else if startsWith (c # cs) sep then rev acc # split_go sep (length sep - 1) [] cs
      else split_go sep 0 (c # acc) cs)"

definition split :: "string \<Rightarrow> string \<Rightarrow> string list" where
  "split s sep = (if sep = [] then map (\<lambda>c. [c]) s else split_go sep 0 [] s)"

text \<open>The decimal numeral of a natural number, as \<open>String(i)\<close> writes an array index.\<close>

fun nat_to_string :: "nat \<Rightarrow> string" where
  "nat_to_string n =
     (if n < 10 then [''0123456789'' ! n]
      else nat_to_string (n div 10) @ [''0123456789'' ! (n mod 10)])"

declare nat_to_string.simps [simp del]

section \<open>JavaScript values and the runtime\<close>

text \<open>
  Context data are JSON-like values.  The type \<open>'n\<close> of numbers is left open: JavaScript
  numbers are IEEE doubles, and everything the code asks of them (parsing, printing,
  comparing) is answered by the runtime below.  Objects are association lists with distinct
  keys.  A value met while a path is followed is either such a datum or a member inherited
  through the prototype chain (\<open>Builtin\<close>, named by its key), which is opaque.
\<close>

datatype 'n val =
    VUndefined
  | VNull
  | VBool bool
  | VNum 'n
  | VStr string
  | VArr "'n val list"
  | VObj "(string \<times> 'n val) list"

datatype 'n jsval = Data "'n val" | Builtin string

datatype js_error = Error string | TypeError string

text \<open>
  The parts of the JavaScript runtime that the sources call and that this repository does
  not define.  \<open>inherited v k\<close> is the member that the prototype chain of \<open>v\<close> gives for a key
  \<open>k\<close> that is not an own property of \<open>v\<close>: a datum, or a built-in of the standard
  prototypes, named by its key.  It is \<open>None\<close> when the chain has no such member, as for
  every key on an object made by \<open>Object.create(null)\<close>.
\<close>

record 'n runtime =
  num_of_nat :: "nat \<Rightarrow> 'n"
  num_truthy :: "'n \<Rightarrow> bool"
  num_to_string :: "'n \<Rightarrow> string"
  isNaN :: "string \<Rightarrow> bool"
  parseFloat :: "string \<Rightarrow> 'n"
  compare :: "string \<Rightarrow> 'n jsval \<Rightarrow> 'n jsval \<Rightarrow> js_error + bool"
  object_to_primitive :: "'n jsval \<Rightarrow> js_error + string"
  json_stringify :: "'n jsval \<Rightarrow> string"
  inherited :: "'n jsval \<Rightarrow> string \<Rightarrow> 'n jsval option"
  typeof_builtin :: "string \<Rightarrow> string"

definition typeof :: "'n runtime \<Rightarrow> 'n jsval \<Rightarrow> string" where
  "typeof rt v =
     (case v of
        Builtin b \<Rightarrow> typeof_builtin rt b
      | Data VUndefined \<Rightarrow> ''undefined''
      | Data VNull \<Rightarrow> ''object''
      | Data (VBool _) \<Rightarrow> ''boolean''
      | Data (VNum _) \<Rightarrow> ''number''
      | Data (VStr _) \<Rightarrow> ''string''
      | Data (VArr _) \<Rightarrow> ''object''
      | Data (VObj _) \<Rightarrow> ''object'')"

definition truthy :: "'n runtime \<Rightarrow> 'n jsval \<Rightarrow> bool" where
  "truthy rt v =
     (case v of
        Builtin _ \<Rightarrow> True
      | Data VUndefined \<Rightarrow> False
      | Data VNull \<Rightarrow> False
      | Data (VBool b) \<Rightarrow> b
      | Data (VNum n) \<Rightarrow> num_truthy rt n
      | Data (VStr s) \<Rightarrow> s \<noteq> []
      | Data (VArr _) \<Rightarrow> True
      | Data (VObj _) \<Rightarrow> True)"

definition array_index :: "string \<Rightarrow> nat \<Rightarrow> nat option" where
  "array_index key n = List.find (\<lambda>i. nat_to_string i = key) [0..<n]"

text \<open>
  The own properties of a datum: the keys of an object; the indices of an array, written
  as canonical decimal numerals, and its \<open>length\<close>.
\<close>

definition own_property :: "'n runtime \<Rightarrow> 'n val \<Rightarrow> string \<Rightarrow> 'n val option" where
  "own_property rt v key =
     (case v of
        VObj kvs \<Rightarrow> map_of kvs key
      | VArr xs \<Rightarrow>
          (if key = ''length'' then Some (VNum (num_of_nat rt (length xs)))
           else map_option (\<lambda>i. xs ! i) (array_index key (length xs)))
      | _ \<Rightarrow> None)"

section \<open>ContextResolver.resolve\<close>

text \<open>
  \<open>current.hasOwnProperty(part)\<close> is a method call: the method is looked up on \<open>current\<close>
  itself first and then along its prototype chain.  An own property named
  \<open>hasOwnProperty\<close> (a datum, never callable) shadows the inherited method; a chain that
  gives a datum or nothing (\<open>Object.create(null)\<close>) has no method to call: the call throws
  a TypeError.  The built-in that a chain gives under this name is the method of
  \<open>Object.prototype\<close>, which tests the own properties.
\<close>

definition hasOwnProperty :: "'n runtime \<Rightarrow> 'n val \<Rightarrow> string \<Rightarrow> js_error + bool" where
  "hasOwnProperty rt current part =
     (case own_property rt current ''hasOwnProperty'' of
        Some f \<Rightarrow> Inl (TypeError ''current.hasOwnProperty is not a function'')
      | None \<Rightarrow>
          (case inherited rt (Data current) ''hasOwnProperty'' of
             Some (Builtin b) \<Rightarrow> Inr (own_property rt current part \<noteq> None)
           | _ \<Rightarrow> Inl (TypeError ''current.hasOwnProperty is not a function'')))"

definition get_own :: "'n runtime \<Rightarrow> 'n val \<Rightarrow> string \<Rightarrow> 'n val" where
  "get_own rt current part =
     (case own_property rt current part of Some v \<Rightarrow> v | None \<Rightarrow> VUndefined)"

fun resolve_parts :: "'n runtime \<Rightarrow> string list \<Rightarrow> 'n val \<Rightarrow> 'n val \<Rightarrow> js_error + 'n val" where
  "resolve_parts rt [] current defaultValue = Inr current"
| "resolve_parts rt (part # parts) current defaultValue =
     (if current = VNull \<or> typeof rt (Data current) \<noteq> ''object'' then Inr defaultValue
      else case hasOwnProperty rt current part of
        Inl e \<Rightarrow> Inl e
      | Inr False \<Rightarrow> Inr defaultValue
      | Inr True \<Rightarrow> resolve_parts rt parts (get_own rt current part) defaultValue)"

definition str_of :: "'n val \<Rightarrow> string" where
  "str_of v = (case v of VStr s \<Rightarrow> s | _ \<Rightarrow> [])"

definition resolve :: "'n runtime \<Rightarrow> 'n val \<Rightarrow> 'n val \<Rightarrow> 'n val \<Rightarrow> js_error + 'n val" where
  "resolve rt context path defaultValue =
     (if \<not> truthy rt (Data context) \<or> typeof rt (Data path) \<noteq> ''string'' \<or> length (str_of path) = 0
      then Inr defaultValue
      else resolve_parts rt (split (str_of path) ''.'') context defaultValue)"

text \<open>The call with the third argument omitted: the parameter's default is \<open>undefined\<close>.\<close>

definition resolve2 :: "'n runtime \<Rightarrow> 'n val \<Rightarrow> 'n val \<Rightarrow> js_error + 'n val" where
  "resolve2 rt context path = resolve rt context path VUndefined"

text \<open>
  A context is \<open>plain\<close> when each of its objects and arrays inherits the method
  \<open>hasOwnProperty\<close> of \<open>Object.prototype\<close> and has no own property of that name.
\<close>

definition inherits_hasOwnProperty :: "'n runtime \<Rightarrow> 'n val \<Rightarrow> bool" where
  "inherits_hasOwnProperty rt v =
     (inherited rt (Data v) ''hasOwnProperty'' = Some (Builtin ''hasOwnProperty''))"

fun plain :: "'n runtime \<Rightarrow> 'n val \<Rightarrow> bool" where
  "plain rt (VObj kvs) =
     (map_of kvs ''hasOwnProperty'' = None \<and> inherits_hasOwnProperty rt (VObj kvs)
      \<and> list_all (\<lambda>kv. plain rt (snd kv)) kvs)"
| "plain rt (VArr xs) = (inherits_hasOwnProperty rt (VArr xs) \<and> list_all (plain rt) xs)"
| "plain rt _ = True"

text \<open>
  Following a path of own properties from a value: \<open>None\<close> when a segment is not an own
  property of the value reached, which is so for every segment on a scalar, for a key that
  an object lacks, and for an index outside an array.
\<close>

fun own_path :: "'n runtime \<Rightarrow> string list \<Rightarrow> 'n val \<Rightarrow> 'n val option" where
  "own_path rt [] v = Some v"
| "own_path rt (segment # segments) v =
     (case own_property rt v segment of
        None \<Rightarrow> None
      | Some x \<Rightarrow> own_path rt segments x)"

definition scalar :: "'n val \<Rightarrow> bool" where
  "scalar v = (case v of VArr _ \<Rightarrow> False | VObj _ \<Rightarrow> False | _ \<Rightarrow> True)"

section \<open>ContextProcessor: reading the context\<close>

text \<open>
  \<open>key in value\<close> holds for an own property and for an inherited one; \<open>value[key]\<close> reads
  the own property first.
\<close>

definition js_in :: "'n runtime \<Rightarrow> string \<Rightarrow> 'n jsval \<Rightarrow> bool" where
  "js_in rt key v =
     (case v of
        Data d \<Rightarrow> own_property rt d key \<noteq> None \<or> inherited rt v key \<noteq> None
      | Builtin b \<Rightarrow> inherited rt v key \<noteq> None)"

definition js_get :: "'n runtime \<Rightarrow> 'n jsval \<Rightarrow> string \<Rightarrow> 'n jsval" where
  "js_get rt v key =
     (case (case v of Data d \<Rightarrow> own_property rt d key | Builtin b \<Rightarrow> None) of
        Some x \<Rightarrow> Data x
      | None \<Rightarrow> (case inherited rt v key of Some m \<Rightarrow> m | None \<Rightarrow> Data VUndefined))"

definition quoted :: "string \<Rightarrow> string" where
  "quoted s = [CHR 0x27] @ s @ [CHR 0x27]"

fun getValue_keys :: "'n runtime \<Rightarrow> string list \<Rightarrow> 'n jsval \<Rightarrow> js_error + 'n jsval" where
  "getValue_keys rt [] v = Inr v"
| "getValue_keys rt (key # keys) v =
     (if v = Data VNull \<or> v = Data VUndefined
      then Inl (Error (''Cannot access property '' @ quoted key @ '' of ''
                       @ (if v = Data VNull then ''null'' else ''undefined'')))
      else if typeof rt v = ''object'' \<and> js_in rt key v
      then getValue_keys rt keys (js_get rt v key)
      else Inl (Error (''Property '' @ quoted key @ '' not found in context'')))"

definition getValue :: "'n runtime \<Rightarrow> string \<Rightarrow> 'n val \<Rightarrow> js_error + 'n jsval" where
  "getValue rt path context = getValue_keys rt (split path ''.'') (Data context)"

section \<open>Regular expressions\<close>

text \<open>
  The fragment of JavaScript regular expressions that the sources use: literals, a character
  class under the greedy \<open>*\<close> and \<open>+\<close> or the lazy \<open>*?\<close>, capturing groups, and an
  optional group.  \<open>rmatch r s\<close> lists, in the order in which backtracking tries them, the
  ways in which \<open>r\<close> matches a prefix of \<open>s\<close>: the captures and the rest of \<open>s\<close>.  The first
  element is the match that \<open>exec\<close> reports.
\<close>

datatype cclass = CSpace | CWord | CAny | CNot "char list"

definition is_word :: "char \<Rightarrow> bool" where
  "is_word c = (c \<in> set ''abcdefghijklmnopqrstuvwxyzABCDEFGHIJKLMNOPQRSTUVWXYZ0123456789_'')"

definition in_class :: "cclass \<Rightarrow> char \<Rightarrow> bool" where
  "in_class cc c =
     (case cc of CSpace \<Rightarrow> is_space c | CWord \<Rightarrow> is_word c | CAny \<Rightarrow> True | CNot cs \<Rightarrow> c \<notin> set cs)"

datatype re =
    Lit string
  | Star cclass
  | Plus cclass
  | Lazy cclass
  | Cap re
  | Opt re
  | Seq "re list"

fun ngroups :: "re \<Rightarrow> nat" where
  "ngroups (Cap r) = Suc (ngroups r)"
| "ngroups (Opt r) = ngroups r"
| "ngroups (Seq rs) = sum_list (map ngroups rs)"
| "ngroups _ = 0"

fun rmatch :: "re \<Rightarrow> string \<Rightarrow> (string option list \<times> string) list" where
  "rmatch (Lit l) s = (if startsWith s l then [([], drop (length l) s)] else [])"
| "rmatch (Star cc) s =
     map (\<lambda>k. ([], drop k s)) (rev [0..<Suc (length (takeWhile (in_class cc) s))])"
| "rmatch (Plus cc) s =
     map (\<lambda>k. ([], drop k s)) (rev [1..<Suc (length (takeWhile (in_class cc) s))])"
| "rmatch (Lazy cc) s =
     map (\<lambda>k. ([], drop k s)) [0..<Suc (length (takeWhile (in_class cc) s))]"
| "rmatch (Cap r) s =
     map (\<lambda>m. (Some (take (length s - length (snd m)) s) # fst m, snd m)) (rmatch r s)"
| "rmatch (Opt r) s = rmatch r s @ [(replicate (ngroups r) None, s)]"
| "rmatch (Seq []) s = [([], s)]"
| "rmatch (Seq (r # rs)) s =
     concat (map (\<lambda>m. map (\<lambda>m'. (fst m @ fst m', snd m')) (rmatch (Seq rs) (snd m))) (rmatch r s))"

text \<open>
  A match as \<open>exec\<close> returns it: its index, the matched text \<open>match[0]\<close> and the groups.
  \<open>exec_all\<close> is the loop \<open>while ((match = pattern.exec(content)) !== null)\<close> of a global
  pattern: after a match the search resumes at its end (\<open>skip\<close> counts the characters of the
  match still to be passed).
\<close>

record rx_match =
  rx_index :: nat
  rx_text :: string
  rx_groups :: "string option list"

fun exec_all :: "re \<Rightarrow> nat \<Rightarrow> nat \<Rightarrow> string \<Rightarrow> rx_match list" where
  "exec_all r skip i [] = []"
| "exec_all r skip i (c # cs) =
     (if 0 < skip then exec_all r (skip - 1) (Suc i) cs
      else case rmatch r (c # cs) of
        [] \<Rightarrow> exec_all r 0 (Suc i) cs
      | m # _ \<Rightarrow>
          (let n = length (c # cs) - length (snd m)
           in \<lparr> rx_index = i, rx_text = take n (c # cs), rx_groups = fst m \<rparr>
              # exec_all r (n - 1) (Suc i) cs))"

definition group :: "rx_match \<Rightarrow> nat \<Rightarrow> string option" where
  "group m k = (if k < length (rx_groups m) then rx_groups m ! k else None)"

text \<open>The text of a group that took part in the match (the empty string otherwise).\<close>

definition group_text :: "rx_match \<Rightarrow> nat \<Rightarrow> string" where
  "group_text m k = (case group m k of Some t \<Rightarrow> t | None \<Rightarrow> [])"


section \<open>TemplateParser (src/core/TemplateParser.js)\<close>

definition placeholder_re :: re where
  "placeholder_re = Seq [Lit ''{{'', Cap (Plus (CNot ''}'')), Lit ''}}'']"

definition loop_re :: re where
  "loop_re = Seq [Lit ''{%'', Star CSpace, Lit ''loop'', Plus CSpace, Cap (Plus CWord),
     Plus CSpace, Lit ''in'', Plus CSpace, Cap (Plus (CNot ''%'')), Star CSpace, Lit ''%}'',
     Cap (Lazy CAny), Lit ''{%'', Star CSpace, Lit ''endloop'', Star CSpace, Lit ''%}'']"

definition conditional_re :: re where
  "conditional_re = Seq [Lit ''{%'', Star CSpace, Lit ''if'', Plus CSpace, Cap (Plus (CNot ''%'')),
     Star CSpace, Lit ''%}'', Cap (Lazy CAny),
     Opt (Seq [Lit ''{%'', Star CSpace, Lit ''else'', Star CSpace, Lit ''%}'', Cap (Lazy CAny)]),
     Lit ''{%'', Star CSpace, Lit ''endif'', Star CSpace, Lit ''%}'']"

definition moduleTag_re :: re where
  "moduleTag_re = Seq [Lit ''{%'', Star CSpace, Cap (Plus CWord), Plus CSpace,
     Cap (Star (CNot ''%'')), Star CSpace, Lit ''%}'']"

definition rawXml_re :: re where
  "rawXml_re = Seq [Lit ''{@'', Cap (Plus (CNot ''}'')), Lit ''}'']"

definition paragraphPlaceholder_re :: re where
  "paragraphPlaceholder_re = Seq [Lit ''{{?'', Cap (Plus (CNot ''}'')), Lit ''}}'']"

text \<open>
  The tokens of \<open>parse\<close>.  Every match carries its \<open>index\<close>, its \<open>length\<close> and its
  \<open>fullMatch\<close> (here a \<open>span\<close>), and then the fields of its kind: a loop its variable,
  collection and content; a conditional its condition, ifContent and elseContent; a module
  tag its moduleName and data; the others their variable.  A text token has its content and,
  when \<open>parse\<close> made it, its index.
\<close>

record span =
  index :: nat
  len :: nat
  fullMatch :: string

datatype token =
    Text string "nat option"
  | Placeholder span string
  | LoopTok span string string string
  | Conditional span string string string
  | ModuleTok span string string
  | RawXml span string
  | ParagraphPlaceholder span string

definition span_of :: "rx_match \<Rightarrow> span" where
  "span_of m = \<lparr> index = rx_index m, len = length (rx_text m), fullMatch = rx_text m \<rparr>"

fun token_index :: "token \<Rightarrow> nat" where
  "token_index (Text _ i) = (case i of Some k \<Rightarrow> k | None \<Rightarrow> 0)"
| "token_index (Placeholder sp _) = index sp"
| "token_index (LoopTok sp _ _ _) = index sp"
| "token_index (Conditional sp _ _ _) = index sp"
| "token_index (ModuleTok sp _ _) = index sp"
| "token_index (RawXml sp _) = index sp"
| "token_index (ParagraphPlaceholder sp _) = index sp"

fun token_length :: "token \<Rightarrow> nat" where
  "token_length (Text c _) = length c"
| "token_length (Placeholder sp _) = len sp"
| "token_length (LoopTok sp _ _ _) = len sp"
| "token_length (Conditional sp _ _ _) = len sp"
| "token_length (ModuleTok sp _ _) = len sp"
| "token_length (RawXml sp _) = len sp"
| "token_length (ParagraphPlaceholder sp _) = len sp"

text \<open>The text of the input that a token stands for: its raw span.\<close>

fun token_raw :: "token \<Rightarrow> string" where
  "token_raw (Text c _) = c"
| "token_raw (Placeholder sp _) = fullMatch sp"
| "token_raw (LoopTok sp _ _ _) = fullMatch sp"
| "token_raw (Conditional sp _ _ _) = fullMatch sp"
| "token_raw (ModuleTok sp _ _) = fullMatch sp"
| "token_raw (RawXml sp _) = fullMatch sp"
| "token_raw (ParagraphPlaceholder sp _) = fullMatch sp"

definition isPartOfLargerConstruct :: "nat \<Rightarrow> token list \<Rightarrow> bool" where
  "isPartOfLargerConstruct i existingMatches =
     list_ex (\<lambda>m. token_index m \<le> i \<and> i < token_index m + token_length m) existingMatches"

text \<open>
  One of the four guarded loops of \<open>_findAllMatches\<close>: a match is pushed unless its index
  lies inside a match pushed before, those of the same loop included.
\<close>

fun push_unless_part :: "(rx_match \<Rightarrow> token) \<Rightarrow> rx_match list \<Rightarrow> token list \<Rightarrow> token list" where
  "push_unless_part mk [] matches = matches"
| "push_unless_part mk (m # ms) matches =
     push_unless_part mk ms
       (if isPartOfLargerConstruct (rx_index m) matches then matches else matches @ [mk m])"

definition findAllMatches :: "string \<Rightarrow> token list" where
  "findAllMatches content =
     (let loops = map (\<lambda>m. LoopTok (span_of m) (trim (group_text m 0)) (trim (group_text m 1))
                               (group_text m 2))
                      (exec_all loop_re 0 0 content);
          conds = map (\<lambda>m. Conditional (span_of m) (trim (group_text m 0)) (group_text m 1)
                               (group_text m 2))
                      (exec_all conditional_re 0 0 content);
          m1 = push_unless_part
                 (\<lambda>m. ModuleTok (span_of m) (trim (group_text m 0)) (trim (group_text m 1)))
                 (exec_all moduleTag_re 0 0 content) (loops @ conds);
          m2 = push_unless_part (\<lambda>m. Placeholder (span_of m) (trim (group_text m 0)))
                 (exec_all placeholder_re 0 0 content) m1;
          m3 = push_unless_part (\<lambda>m. RawXml (span_of m) (trim (group_text m 0)))
                 (exec_all rawXml_re 0 0 content) m2
      in push_unless_part (\<lambda>m. ParagraphPlaceholder (span_of m) (trim (group_text m 0)))
           (exec_all paragraphPlaceholder_re 0 0 content) m3)"

text \<open>
  The loop of \<open>parse\<close> over the sorted matches: the text before a match becomes a text
  token when the match starts after \<open>position\<close>; then \<open>position\<close> is set to the end of the
  match.
\<close>

fun build_tokens :: "string \<Rightarrow> nat \<Rightarrow> token list \<Rightarrow> token list \<times> nat" where
  "build_tokens content position [] = ([], position)"
| "build_tokens content position (m # ms) =
     (let before = (if position < token_index m
                    then [Text (substring content position (token_index m)) (Some position)] else []);
          r = build_tokens content (token_index m + token_length m) ms
      in (before @ [m] @ fst r, snd r))"

definition parse :: "string \<Rightarrow> token list" where
  "parse content =
     (let r = build_tokens content 0 (sort_key token_index (findAllMatches content))
      in fst r @ (if snd r < length content
                  then [Text (substring content (snd r) (length content)) (Some (snd r))] else []))"

section \<open>ContextProcessor\<close>

text \<open>
  The options: \<open>errorOnMissingData\<close> is the strict mode; \<open>nullGetter\<close> is taken to answer a
  string (the default answers the empty string).
\<close>

record options =
  errorOnMissingData :: bool
  nullGetter :: "unit \<Rightarrow> string"

definition default_options :: options where
  "default_options = \<lparr> errorOnMissingData = False, nullGetter = (\<lambda>_. []) \<rparr>"

text \<open>The string that \<open>result += v\<close> appends and that \<open>String(v)\<close> answers.\<close>

definition to_string :: "'n runtime \<Rightarrow> 'n jsval \<Rightarrow> js_error + string" where
  "to_string rt v =
     (case v of
        Data VUndefined \<Rightarrow> Inr ''undefined''
      | Data VNull \<Rightarrow> Inr ''null''
      | Data (VBool b) \<Rightarrow> Inr (if b then ''true'' else ''false'')
      | Data (VNum n) \<Rightarrow> Inr (num_to_string rt n)
      | Data (VStr s) \<Rightarrow> Inr s
      | _ \<Rightarrow> object_to_primitive rt v)"

definition formatValue :: "'n runtime \<Rightarrow> options \<Rightarrow> 'n jsval \<Rightarrow> js_error + string" where
  "formatValue rt opts v =
     (if v = Data VNull \<or> v = Data VUndefined then Inr (nullGetter opts ())
      else if typeof rt v = ''object'' then Inr (json_stringify rt v)
      else to_string rt v)"

definition parseContent :: "string \<Rightarrow> token list" where
  "parseContent content = [Text content None]"

definition removeParagraph :: "token \<Rightarrow> string" where
  "removeParagraph tok = []"

definition slice_1_minus_1 :: "string \<Rightarrow> string" where
  "slice_1_minus_1 s = take (length s - 2) (drop 1 s)"

definition parseValue :: "'n runtime \<Rightarrow> string \<Rightarrow> 'n val \<Rightarrow> 'n jsval" where
  "parseValue rt v context =
     (if (startsWith v [CHR 0x22] \<and> endsWith v [CHR 0x22])
         \<or> (startsWith v [CHR 0x27] \<and> endsWith v [CHR 0x27])
      then Data (VStr (slice_1_minus_1 v))
      else if \<not> isNaN rt v then Data (VNum (parseFloat rt v))
      else if v = ''true'' then Data (VBool True)
      else if v = ''false'' then Data (VBool False)
      else case getValue rt v context of Inr x \<Rightarrow> x | Inl e \<Rightarrow> Data (VStr v))"

definition operators :: "string list" where
  "operators = [''=='', ''!='', ''>='', ''<='', ''>'', ''<'']"

text \<open>
  The body of the \<open>try\<close> of \<open>_evaluateCondition\<close>: the loop over the operators, then the
  truthiness check.  \<open>[left, right]\<close> are the first two pieces of \<open>condition.split(op)\<close>.
\<close>

fun evaluate_ops :: "'n runtime \<Rightarrow> string list \<Rightarrow> string \<Rightarrow> 'n val \<Rightarrow> js_error + bool" where
  "evaluate_ops rt [] condition context =
     (case getValue rt condition context of Inl e \<Rightarrow> Inl e | Inr v \<Rightarrow> Inr (truthy rt v))"
| "evaluate_ops rt (op # ops) condition context =
     (if includes_str condition op
      then case map trim (split condition op) of
             left # right # _ \<Rightarrow>
               (case getValue rt left context of
                  Inl e \<Rightarrow> Inl e
                | Inr leftValue \<Rightarrow> compare rt op leftValue (parseValue rt right context))
           | _ \<Rightarrow> Inl (TypeError ''Cannot read properties of undefined'')
      else evaluate_ops rt ops condition context)"

definition evaluateCondition :: "'n runtime \<Rightarrow> string \<Rightarrow> 'n val \<Rightarrow> bool" where
  "evaluateCondition rt condition context =
     (case evaluate_ops rt operators condition context of Inl e \<Rightarrow> False | Inr b \<Rightarrow> b)"

text \<open>
  The loop context \<open>{...context, [variable]: item, $index, $first, $last, $length}\<close>: the
  own enumerable properties of the context, then the five bindings, a later one replacing
  an earlier one of the same key.
\<close>

fun obj_set :: "string \<Rightarrow> 'v \<Rightarrow> (string \<times> 'v) list \<Rightarrow> (string \<times> 'v) list" where
  "obj_set k v [] = [(k, v)]"
| "obj_set k v (p # ps) = (if fst p = k then (k, v) # ps else p # obj_set k v ps)"

definition spread :: "'n val \<Rightarrow> (string \<times> 'n val) list" where
  "spread v =
     (case v of
        VObj kvs \<Rightarrow> kvs
      | VArr xs \<Rightarrow> zip (map nat_to_string [0..<length xs]) xs
      | VStr s \<Rightarrow> zip (map nat_to_string [0..<length s]) (map (\<lambda>c. VStr [c]) s)
      | _ \<Rightarrow> [])"

definition loopContext :: "'n runtime \<Rightarrow> 'n val \<Rightarrow> string \<Rightarrow> 'n val list \<Rightarrow> nat \<Rightarrow> 'n val" where
  "loopContext rt context variable collection i =
     VObj (obj_set ''$length'' (VNum (num_of_nat rt (length collection)))
          (obj_set ''$last'' (VBool (Suc i = length collection))
          (obj_set ''$first'' (VBool (i = 0))
          (obj_set ''$index'' (VNum (num_of_nat rt i))
          (obj_set variable (collection ! i) (spread context))))))"

text \<open>Appending the results of the iterations in order; the first throw ends the loop.\<close>

fun append_results :: "(js_error + string) list \<Rightarrow> js_error + string" where
  "append_results [] = Inr []"
| "append_results (r # rs) =
     (case r of
        Inl e \<Rightarrow> Inl e
      | Inr s \<Rightarrow> (case append_results rs of Inl e \<Rightarrow> Inl e | Inr t \<Rightarrow> Inr (s @ t)))"

definition is_text :: "token \<Rightarrow> bool" where
  "is_text t = (case t of Text _ _ \<Rightarrow> True | _ \<Rightarrow> False)"

definition processPlaceholder :: "'n runtime \<Rightarrow> options \<Rightarrow> string \<Rightarrow> 'n val \<Rightarrow> js_error + string" where
  "processPlaceholder rt opts variable context =
     (case (case getValue rt variable context of
              Inl e \<Rightarrow> Inl e
            | Inr v \<Rightarrow> formatValue rt opts v) of
        Inl e \<Rightarrow>
          (if errorOnMissingData opts
           then Inl (Error (''Missing data for placeholder: '' @ variable))
           else Inr (nullGetter opts ()))
      | Inr s \<Rightarrow> Inr s)"

text \<open>
  \<open>_processRawXml\<close> answers \<open>value || ''\<close>, a value; \<open>process\<close> appends it with \<open>+=\<close>, outside
  the \<open>try\<close>.
\<close>

definition processRawXml :: "'n runtime \<Rightarrow> options \<Rightarrow> string \<Rightarrow> 'n val \<Rightarrow> js_error + 'n jsval" where
  "processRawXml rt opts variable context =
     (case getValue rt variable context of
        Inl e \<Rightarrow> (if errorOnMissingData opts then Inl e else Inr (Data (VStr [])))
      | Inr v \<Rightarrow> Inr (if truthy rt v then v else Data (VStr [])))"

definition processParagraphPlaceholder ::
    "'n runtime \<Rightarrow> options \<Rightarrow> token \<Rightarrow> string \<Rightarrow> 'n val \<Rightarrow> js_error + string" where
  "processParagraphPlaceholder rt opts tok variable context =
     (case (case getValue rt variable context of
              Inl e \<Rightarrow> Inl e
            | Inr v \<Rightarrow>
                (if v = Data VNull \<or> v = Data VUndefined \<or> v = Data (VStr [])
                 then Inr (removeParagraph tok)
                 else formatValue rt opts v)) of
        Inl e \<Rightarrow> (if errorOnMissingData opts then Inl e else Inr (removeParagraph tok))
      | Inr s \<Rightarrow> Inr s)"

definition then_append :: "js_error + string \<Rightarrow> js_error + string \<Rightarrow> js_error + string" where
  "then_append r rest =
     (case r of
        Inl e \<Rightarrow> Inl e
      | Inr s \<Rightarrow> (case rest of Inl e \<Rightarrow> Inl e | Inr t \<Rightarrow> Inr (s @ t)))"

text \<open>
  \<open>process\<close>, \<open>_processLoop\<close> and \<open>_processConditional\<close>.  The body of a loop and the branch
  of a conditional go through \<open>_parseContent\<close>, which makes one text token of them, and back
  into \<open>process\<close>.  In the \<open>catch\<close> of \<open>_processConditional\<close> the lenient answer is the object
  that \<open>_parseContent\<close> returns, which \<open>+=\<close> appends as \<open>[object Object]\<close>.  The
  \<open>default\<close> case of the \<open>switch\<close> has no token: every token is of one of the seven kinds.
  An inherited member is never taken for an array.
\<close>

function process :: "'n runtime \<Rightarrow> options \<Rightarrow> token list \<Rightarrow> 'n val \<Rightarrow> js_error + string"
  and processLoop :: "'n runtime \<Rightarrow> options \<Rightarrow> string \<Rightarrow> string \<Rightarrow> string \<Rightarrow> 'n val \<Rightarrow> js_error + string"
  and processConditional :: "'n runtime \<Rightarrow> options \<Rightarrow> string \<Rightarrow> string \<Rightarrow> string \<Rightarrow> 'n val \<Rightarrow> js_error + string"
where
  "process rt opts [] context = Inr []"
| "process rt opts (Text content i # toks) context =
     then_append (Inr content) (process rt opts toks context)"
| "process rt opts (Placeholder sp variable # toks) context =
     then_append (processPlaceholder rt opts variable context) (process rt opts toks context)"
| "process rt opts (LoopTok sp variable collection content # toks) context =
     then_append (processLoop rt opts variable collection content context)
       (process rt opts toks context)"
| "process rt opts (Conditional sp condition ifContent elseContent # toks) context =
     then_append (processConditional rt opts condition ifContent elseContent context)
       (process rt opts toks context)"
| "process rt opts (RawXml sp variable # toks) context =
     then_append
       (case processRawXml rt opts variable context of Inl e \<Rightarrow> Inl e | Inr v \<Rightarrow> to_string rt v)
       (process rt opts toks context)"
| "process rt opts (ParagraphPlaceholder sp variable # toks) context =
     then_append
       (processParagraphPlaceholder rt opts (ParagraphPlaceholder sp variable) variable context)
       (process rt opts toks context)"
| "process rt opts (ModuleTok sp moduleName data # toks) context =
     then_append (Inr (fullMatch sp)) (process rt opts toks context)"
| "processLoop rt opts variable collection content context =
     (case (case getValue rt collection context of
              Inl e \<Rightarrow> Inl e
            | Inr c \<Rightarrow>
                (case c of
                   Data (VArr xs) \<Rightarrow>
                     append_results
                       (map (\<lambda>i. process rt opts (parseContent content)
                                    (loopContext rt context variable xs i))
                            [0..<length xs])
                 | _ \<Rightarrow>
                     (if errorOnMissingData opts
                      then Inl (Error (''Loop collection is not an array: '' @ collection))
                      else Inr []))) of
        Inl e \<Rightarrow> (if errorOnMissingData opts then Inl e else Inr [])
      | Inr r \<Rightarrow> Inr r)"
| "processConditional rt opts condition ifContent elseContent context =
     (let contentToProcess =
            (if evaluateCondition rt condition context then ifContent else elseContent)
      in case (if contentToProcess \<noteq> []
               then process rt opts (parseContent contentToProcess) context
               else Inr []) of
           Inl e \<Rightarrow>
             (if errorOnMissingData opts then Inl e
              else Inr (if elseContent \<noteq> [] then ''[object Object]'' else []))
         | Inr r \<Rightarrow> Inr r)"
  by pat_completeness auto
termination
  by (relation "measure (\<lambda>x. case x of
        Inl (rt, opts, toks, context) \<Rightarrow> 5 * length (filter (\<lambda>t. \<not> is_text t) toks) + length toks + 2
      | Inr _ \<Rightarrow> 4)")
    (auto simp: parseContent_def is_text_def)

section \<open>ModuleManager\<close>

text \<open>
  The processing context that \<open>ModuleManager.process\<close> receives: the data, the document
  type, and the two fields it reads when they are there, \<open>errorOnMissingData\<close> and
  \<open>content\<close>.  A module is an object with a \<open>name\<close> (empty when it has none), maybe a
  \<open>process\<close> method, a \<open>priority\<close>, \<open>supportedTypes\<close> (any value) and \<open>hasTagsToProcess\<close>.
  Its \<open>process\<close> returns the new content or throws; what it throws is an \<open>Error\<close> object
  or any other value, \<open>null\<close> and \<open>undefined\<close> among them.  \<open>hasTagsToProcess\<close> answers a
  truth value or throws an \<open>Error\<close>.
\<close>

datatype 'n exn = Exn js_error | Thrown "'n val"

record 'n pcontext =
  pc_context :: "'n val"
  pc_documentType :: string
  pc_errorOnMissingData :: bool
  pc_content :: "string option"

record 'n module =
  name :: string
  process_method :: "(string \<Rightarrow> 'n pcontext \<Rightarrow> 'n exn + string) option"
  priority :: "int option"
  supportedTypes :: "'n val option"
  hasTagsToProcess :: "(string \<Rightarrow> js_error + bool) option"

record 'n manager =
  modules :: "(string \<times> 'n module) list"
  processingOrder :: "string list"

definition new_manager :: "'n manager" where
  "new_manager = \<lparr> modules = [], processingOrder = [] \<rparr>"

text \<open>\<open>module.priority || 100\<close>: a priority that is missing or 0 counts as 100.\<close>

definition priority_or_100 :: "int option \<Rightarrow> int" where
  "priority_or_100 p = (case p of None \<Rightarrow> 100 | Some n \<Rightarrow> if n = 0 then 100 else n)"

text \<open>The priority that \<open>register\<close> compares: \<open>module.priority || 100\<close> of a module.\<close>

definition effective :: "'n module \<Rightarrow> int" where
  "effective m = priority_or_100 (priority m)"

definition message :: "js_error \<Rightarrow> string" where
  "message e = (case e of Error m \<Rightarrow> m | TypeError m \<Rightarrow> m)"

text \<open>
  The text of \<open>${error.message}\<close> in a \<open>catch (error)\<close>: reading the property of \<open>null\<close> or
  \<open>undefined\<close> throws a TypeError; a value without the property gives \<open>undefined\<close>.
\<close>

definition message_of :: "'n runtime \<Rightarrow> 'n exn \<Rightarrow> js_error + string" where
  "message_of rt x =
     (case x of
        Exn e \<Rightarrow> Inr (message e)
      | Thrown v \<Rightarrow>
          (if v = VNull \<or> v = VUndefined
           then Inl (TypeError (''Cannot read properties of ''
                                @ (if v = VNull then ''null'' else ''undefined'')
                                @ '' (reading '' @ quoted ''message'' @ '')''))
           else to_string rt (js_get rt (Data v) ''message'')))"

text \<open>
  The loop of \<open>register\<close> that looks for the first module of the processing order whose
  priority is greater: \<open>i\<close> is the index reached; at the end of the order it is its length.
\<close>

fun insertIndex :: "(string \<times> 'n module) list \<Rightarrow> int \<Rightarrow> string list \<Rightarrow> nat \<Rightarrow> js_error + nat" where
  "insertIndex mods p [] i = Inr i"
| "insertIndex mods p (n # ns) i =
     (case map_of mods n of
        None \<Rightarrow> Inl (TypeError ''Cannot read properties of undefined (reading priority)'')
      | Some existingModule \<Rightarrow>
          (if p < priority_or_100 (priority existingModule) then Inr i
           else insertIndex mods p ns (Suc i)))"

definition register :: "'n module \<Rightarrow> 'n manager \<Rightarrow> js_error + 'n manager" where
  "register m mgr =
     (if name m = [] then Inl (Error ''Module must have a name property'')
      else if process_method m = None then Inl (Error ''Module must have a process method'')
      else let mods = obj_set (name m) m (modules mgr) in
        if name m \<in> set (processingOrder mgr) then Inr (mgr \<lparr> modules := mods \<rparr>)
        else case insertIndex mods (priority_or_100 (priority m)) (processingOrder mgr) 0 of
               Inl e \<Rightarrow> Inl e
             | Inr i \<Rightarrow>
                 Inr \<lparr> modules = mods,
                       processingOrder =
                         take i (processingOrder mgr) @ [name m] @ drop i (processingOrder mgr) \<rparr>)"

definition unregister :: "string \<Rightarrow> 'n manager \<Rightarrow> 'n manager" where
  "unregister moduleName mgr =
     \<lparr> modules = filter (\<lambda>kv. fst kv \<noteq> moduleName) (modules mgr),
       processingOrder = remove1 moduleName (processingOrder mgr) \<rparr>"

text \<open>
  \<open>module.supportedTypes.includes(context.documentType)\<close>: an array has the method of
  \<open>Array.prototype\<close>, a string that of \<open>String.prototype\<close> (a substring test); another
  value has none, and the call throws a TypeError.
\<close>

definition supportedTypes_includes :: "'n val \<Rightarrow> string \<Rightarrow> js_error + bool" where
  "supportedTypes_includes ts documentType =
     (case ts of
        VArr xs \<Rightarrow> Inr (VStr documentType \<in> set xs)
      | VStr t \<Rightarrow> Inr (includes_str t documentType)
      | _ \<Rightarrow> Inl (TypeError ''module.supportedTypes.includes is not a function''))"

definition shouldProcessModule :: "'n runtime \<Rightarrow> 'n module \<Rightarrow> 'n pcontext \<Rightarrow> js_error + bool" where
  "shouldProcessModule rt m pc =
     (case (case supportedTypes m of
              None \<Rightarrow> Inr True
            | Some ts \<Rightarrow>
                (if truthy rt (Data ts) then supportedTypes_includes ts (pc_documentType pc)
                 else Inr True)) of
        Inl e \<Rightarrow> Inl e
      | Inr False \<Rightarrow> Inr False
      | Inr True \<Rightarrow>
          (case hasTagsToProcess m of
             Some f \<Rightarrow> f (case pc_content pc of Some c \<Rightarrow> c | None \<Rightarrow> [])
           | None \<Rightarrow> Inr True))"

definition call_process :: "'n module \<Rightarrow> string \<Rightarrow> 'n pcontext \<Rightarrow> 'n exn + string" where
  "call_process m content pc =
     (case process_method m of
        None \<Rightarrow> Inl (Exn (TypeError ''module.process is not a function''))
      | Some f \<Rightarrow> f content pc)"

text \<open>
  \<open>ModuleManager.process\<close>: the loop over the processing order.  \<open>console\<close> is what
  \<open>console.warn\<close> has written.  \<open>_shouldProcessModule\<close> is called outside the \<open>try\<close>: what it
  throws leaves the loop.  So does what the \<open>catch\<close> throws when it reads \<open>error.message\<close>.
\<close>

fun process_order :: "'n runtime \<Rightarrow> (string \<times> 'n module) list \<Rightarrow> 'n pcontext \<Rightarrow> string list \<Rightarrow>
    string \<Rightarrow> string list \<Rightarrow> (js_error + string) \<times> string list" where
  "process_order rt mods pc [] processedContent console = (Inr processedContent, console)"
| "process_order rt mods pc (moduleName # rest) processedContent console =
     (case map_of mods moduleName of
        None \<Rightarrow> process_order rt mods pc rest processedContent console
      | Some m \<Rightarrow>
          (case shouldProcessModule rt m pc of
             Inl e \<Rightarrow> (Inl e, console)
           | Inr False \<Rightarrow> process_order rt mods pc rest processedContent console
           | Inr True \<Rightarrow>
               (case call_process m processedContent pc of
                  Inr c \<Rightarrow> process_order rt mods pc rest c console
                | Inl x \<Rightarrow>
                    (case message_of rt x of
                       Inl e \<Rightarrow> (Inl e, console)
                     | Inr msg \<Rightarrow>
                         (if pc_errorOnMissingData pc
                          then (Inl (Error (''Module '' @ moduleName @ '' failed: '' @ msg)), console)
                          else process_order rt mods pc rest processedContent
                                 (console @ [''Module '' @ moduleName @ '' failed: '' @ msg]))))))"

definition manager_process :: "'n runtime \<Rightarrow> 'n manager \<Rightarrow> string \<Rightarrow> 'n pcontext \<Rightarrow>
    string list \<Rightarrow> (js_error + string) \<times> string list" where
  "manager_process rt mgr content pc console =
     process_order rt (modules mgr) pc (processingOrder mgr) content console"

section \<open>DocxTemplaterPro._processXmlContent\<close>

record error_record =
  err_message :: string
  err_location :: string
  err_documentType :: string

record 'n templater =
  t_options :: options
  t_moduleManager :: "'n manager"
  t_context :: "'n val"
  t_errors :: "error_record list"
  t_console :: "string list"

definition new_templater :: "options \<Rightarrow> 'n templater" where
  "new_templater opts =
     \<lparr> t_options = opts, t_moduleManager = new_manager, t_context = VObj [],
       t_errors = [], t_console = [] \<rparr>"

text \<open>
  The result of the call and the templater after it.  The processing context that it hands
  to the module manager has the data and the document type (and the archive, which is not
  modelled); it has no \<open>errorOnMissingData\<close> and no \<open>content\<close>.
\<close>

definition processXmlContent :: "'n runtime \<Rightarrow> 'n templater \<Rightarrow> string \<Rightarrow> string \<Rightarrow>
    (js_error + string) \<times> 'n templater" where
  "processXmlContent rt t xmlContent documentType =
     (let body =
        (case process rt (t_options t) (parse xmlContent) (t_context t) of
           Inl e \<Rightarrow> (Inl e, t_console t)
         | Inr processedContent \<Rightarrow>
             manager_process rt (t_moduleManager t) processedContent
               \<lparr> pc_context = t_context t, pc_documentType = documentType,
                 pc_errorOnMissingData = False, pc_content = None \<rparr> (t_console t))
      in case fst body of
           Inr processedContent \<Rightarrow> (Inr processedContent, t \<lparr> t_console := snd body \<rparr>)
         | Inl e \<Rightarrow>
             ((if errorOnMissingData (t_options t) then Inl e else Inr xmlContent),
              t \<lparr> t_console := snd body,
                  t_errors := t_errors t @
                    [\<lparr> err_message = message e, err_location = ''XML processing'',
                       err_documentType = documentType \<rparr>] \<rparr>))"

section \<open>NewTemplaterCore.attachModule\<close>

text \<open>
  A module of the new core extends \<open>BaseModule\<close>, whose constructor sets a numeric
  priority.  \<open>attachModule\<close> pushes the module and sorts the list with
  \<open>(a, b) => a.priority - b.priority\<close>; \<open>Array.prototype.sort\<close> is stable.
\<close>

record base_module =
  bm_name :: string
  bm_priority :: int

definition attachModule :: "base_module \<Rightarrow> base_module list \<Rightarrow> base_module list" where
  "attachModule moduleInstance mods = sort_key bm_priority (mods @ [moduleInstance])"

section \<open>The conditional expression, in the words of the specification\<close>

text \<open>
  The specification has the first operator of the list that occurs in the expression split
  it into a left and a right part: the text before the operator and the text after it.
  The right part is parsed by: (a) if quoted (single or double), the literal string inside;
  (b) else if it parses as a number, that number; (c) else if exactly \<open>true\<close> or \<open>false\<close>,
  that boolean; (d) else resolved as a context path; (e) else used as a literal string.
  \<open>spec_parseValue\<close> and \<open>spec_evaluateCondition\<close> follow these words, to be compared with
  \<open>parseValue\<close> and \<open>evaluateCondition\<close>: each of (a) to (d) answers a value or nothing, and
  the first answer in that order is taken.  A text is quoted when it begins and ends with
  the same quote; it parses as a number when \<open>isNaN\<close> denies it, and the number is what
  \<open>parseFloat\<close> reads.  \<open>single_comparison\<close> says that the operator chosen occurs once in
  the expression.
\<close>

definition quoted_literal :: "string \<Rightarrow> 'n jsval option" where
  "quoted_literal v =
     (if v \<noteq> [] \<and> hd v = last v \<and> (hd v = CHR 0x22 \<or> hd v = CHR 0x27)
      then Some (Data (VStr (butlast (tl v)))) else None)"

definition number_literal :: "'n runtime \<Rightarrow> string \<Rightarrow> 'n jsval option" where
  "number_literal rt v = (if isNaN rt v then None else Some (Data (VNum (parseFloat rt v))))"

definition boolean_literal :: "string \<Rightarrow> 'n jsval option" where
  "boolean_literal v =
     (if v = ''true'' then Some (Data (VBool True))
      else if v = ''false'' then Some (Data (VBool False)) else None)"

definition context_path :: "'n runtime \<Rightarrow> string \<Rightarrow> 'n val \<Rightarrow> 'n jsval option" where
  "context_path rt v context = (case getValue rt v context of Inr x \<Rightarrow> Some x | Inl e \<Rightarrow> None)"

definition spec_parseValue :: "'n runtime \<Rightarrow> string \<Rightarrow> 'n val \<Rightarrow> 'n jsval" where
  "spec_parseValue rt v context =
     (case List.map_filter id
             [quoted_literal v, number_literal rt v, boolean_literal v, context_path rt v context] of
        x # _ \<Rightarrow> x
      | [] \<Rightarrow> Data (VStr v))"

definition split_first :: "string \<Rightarrow> string \<Rightarrow> (string \<times> string) option" where
  "split_first s op =
     (case indexOf s op of None \<Rightarrow> None
      | Some i \<Rightarrow> Some (take i s, drop (i + length op) s))"

definition spec_evaluateCondition :: "'n runtime \<Rightarrow> string \<Rightarrow> 'n val \<Rightarrow> bool" where
  "spec_evaluateCondition rt expr context =
     (case List.find (includes_str expr) operators of
        Some op \<Rightarrow>
          (case split_first expr op of
             Some (l, r) \<Rightarrow>
               (case getValue rt (trim l) context of
                  Inl e \<Rightarrow> False
                | Inr leftValue \<Rightarrow>
                    (case compare rt op leftValue (spec_parseValue rt (trim r) context) of
                       Inl e \<Rightarrow> False
                     | Inr b \<Rightarrow> b))
           | None \<Rightarrow> False)
      | None \<Rightarrow>
          (case getValue rt expr context of Inl e \<Rightarrow> False | Inr v \<Rightarrow> truthy rt v))"

definition single_comparison :: "string \<Rightarrow> bool" where
  "single_comparison expr =
     (case List.find (includes_str expr) operators of
        None \<Rightarrow> True
      | Some op \<Rightarrow>
          (case indexOf expr op of
             None \<Rightarrow> True
           | Some i \<Rightarrow> \<not> includes_str (drop (i + length op) expr) op))"

section \<open>TagParser (new-templater-core)\<close>

record delimiters =
  d_start :: string
  d_end :: string

record tag_options =
  opt_delimiters :: delimiters
  opt_moduleDelimiters :: delimiters
  opt_rawXmlDelimiter :: delimiters

definition default_tag_options :: tag_options where
  "default_tag_options =
     \<lparr> opt_delimiters = \<lparr> d_start = ''{{'', d_end = ''}}'' \<rparr>,
       opt_moduleDelimiters = \<lparr> d_start = ''{%'', d_end = ''%}'' \<rparr>,
       opt_rawXmlDelimiter = \<lparr> d_start = ''{@'', d_end = ''}'' \<rparr> \<rparr>"

text \<open>
  The tokens of \<open>TagParser.parse\<close>: a text token has its value; a raw XML tag and a
  placeholder have value, fullMatch, start and end; a loop, a condition and a module tag have
  tagType (moduleName), tagData, value, fullMatch, start and end.
\<close>

datatype tag_token =
    TagText string
  | TagRawXml string string nat nat
  | TagLoop string string string string nat nat
  | TagCondition string string string string nat nat
  | TagModule string string string string nat nat
  | TagPlaceholder string string nat nat

fun tag_raw :: "tag_token \<Rightarrow> string" where
  "tag_raw (TagText v) = v"
| "tag_raw (TagRawXml v fm s e) = fm"
| "tag_raw (TagLoop ty d v fm s e) = fm"
| "tag_raw (TagCondition ty d v fm s e) = fm"
| "tag_raw (TagModule ty d v fm s e) = fm"
| "tag_raw (TagPlaceholder v fm s e) = fm"

text \<open>\<open>_matchTag\<close> answers the value and the fullMatch, or nothing.\<close>

definition matchTag :: "string \<Rightarrow> delimiters \<Rightarrow> (string \<times> string) option" where
  "matchTag text d =
     (case indexOf text (d_start d) of
        None \<Rightarrow> None
      | Some startIndex \<Rightarrow>
          (case indexOfFrom text (d_end d) (startIndex + length (d_start d)) of
             None \<Rightarrow> None
           | Some endIndex \<Rightarrow>
               Some (substring text (startIndex + length (d_start d)) endIndex,
                     substring text startIndex (endIndex + length (d_end d)))))"

text \<open>\<open>_findNextDelimiter\<close> answers \<open>Infinity\<close>, here \<open>None\<close>, when there is none.\<close>

definition findNextDelimiter :: "string \<Rightarrow> string \<Rightarrow> nat option" where
  "findNextDelimiter text startDelimiter = indexOf text startDelimiter"

definition min_index :: "nat option \<Rightarrow> nat option \<Rightarrow> nat option" where
  "min_index a b =
     (case a of None \<Rightarrow> b | Some x \<Rightarrow> (case b of None \<Rightarrow> Some x | Some y \<Rightarrow> Some (min x y)))"

definition module_token :: "string \<Rightarrow> string \<Rightarrow> nat \<Rightarrow> tag_token" where
  "module_token v fm cursor =
     (let tagContent = trim v;
          tagType = (case indexOf tagContent '' '' of
                       Some i \<Rightarrow> substring tagContent 0 i | None \<Rightarrow> tagContent);
          tagData = (case indexOf tagContent '' '' of
                       Some i \<Rightarrow> trim (substring tagContent (i + 1) (length tagContent))
                     | None \<Rightarrow> [])
      in if startsWith tagType ''loop'' \<or> startsWith tagType ''endloop''
         then TagLoop tagType tagData v fm cursor (cursor + length fm)
         else if startsWith tagType ''if'' \<or> startsWith tagType ''endif''
                 \<or> startsWith tagType ''else''
         then TagCondition tagType tagData v fm cursor (cursor + length fm)
         else TagModule tagType tagData v fm cursor (cursor + length fm))"

text \<open>
  The loop \<open>while (cursor < content.length)\<close> of \<open>parse\<close>, with fuel: one unit for each
  test of the loop condition; \<open>None\<close> when the fuel runs out before the loop ends.
\<close>

fun parse_loop :: "nat \<Rightarrow> tag_options \<Rightarrow> string \<Rightarrow> nat \<Rightarrow> tag_token list \<Rightarrow> tag_token list option" where
  "parse_loop 0 opts content cursor tokens = None"
| "parse_loop (Suc fuel) opts content cursor tokens =
     (if \<not> cursor < length content then Some tokens
      else let remainingContent = substring content cursor (length content) in
        case matchTag remainingContent (opt_rawXmlDelimiter opts) of
          Some m \<Rightarrow>
            parse_loop fuel opts content (cursor + length (snd m))
              (tokens @ [TagRawXml (trim (fst m)) (snd m) cursor (cursor + length (snd m))])
        | None \<Rightarrow>
           (case matchTag remainingContent (opt_moduleDelimiters opts) of
              Some m \<Rightarrow>
                parse_loop fuel opts content (cursor + length (snd m))
                  (tokens @ [module_token (fst m) (snd m) cursor])
            | None \<Rightarrow>
               (case matchTag remainingContent (opt_delimiters opts) of
                  Some m \<Rightarrow>
                    parse_loop fuel opts content (cursor + length (snd m))
                      (tokens @ [TagPlaceholder (trim (fst m)) (snd m) cursor
                                   (cursor + length (snd m))])
                | None \<Rightarrow>
                   (case min_index
                           (min_index
                              (findNextDelimiter remainingContent (d_start (opt_rawXmlDelimiter opts)))
                              (findNextDelimiter remainingContent (d_start (opt_moduleDelimiters opts))))
                           (findNextDelimiter remainingContent (d_start (opt_delimiters opts))) of
                      None \<Rightarrow>
                        parse_loop fuel opts content (length content)
                          (tokens @ [TagText remainingContent])
                    | Some nextTagIndex \<Rightarrow>
                        parse_loop fuel opts content (cursor + nextTagIndex)
                          (tokens @ [TagText (substring remainingContent 0 nextTagIndex)])))))"

definition tag_parse :: "nat \<Rightarrow> string \<Rightarrow> tag_token list option" where
  "tag_parse fuel content = parse_loop fuel default_tag_options content 0 []"

section \<open>ImageModule and QrCodeModule\<close>

text \<open>
  What the two modules take from outside the repository: reading or downloading an image
  and generating a QR code from the QR data (which may throw), \<open>path.extname\<close>, \<open>String.prototype.replace\<close>
  with a string pattern, and the markup written around a relationship id (it also reads the
  image data and the counter).  The archive is taken to be there: adding a file to it is
  recorded in \<open>zip_media\<close> as the file name and the relationship id.
\<close>

record 'n asset_env =
  load_image :: "string \<Rightarrow> js_error + unit"
  make_qr :: "'n jsval \<Rightarrow> js_error + unit"
  extname :: "string \<Rightarrow> string"
  replace_first :: "string \<Rightarrow> string \<Rightarrow> string \<Rightarrow> string"
  docx_image_xml :: "string \<Rightarrow> 'n jsval \<Rightarrow> nat \<Rightarrow> string"
  pptx_image_xml :: "string \<Rightarrow> 'n jsval \<Rightarrow> nat \<Rightarrow> string"
  docx_qr_xml :: "string \<Rightarrow> 'n jsval \<Rightarrow> nat \<Rightarrow> string"
  pptx_qr_xml :: "string \<Rightarrow> 'n jsval \<Rightarrow> nat \<Rightarrow> string"

record world =
  zip_media :: "(string \<times> string) list"
  warnings :: "string list"

record image_module =
  imageCounter :: nat

record qr_module =
  qrCounter :: nat

text \<open>
  The constructors.  Both set \<open>supportedTypes\<close> to \<open>['docx', 'pptx']\<close>, which no method
  changes.
\<close>

definition new_ImageModule :: image_module where
  "new_ImageModule = \<lparr> imageCounter = 1 \<rparr>"




definition image_re :: re where
  "image_re = Seq [Lit ''{%'', Star CSpace, Lit ''image'', Plus CSpace, Cap (Plus (CNot ''%'')),
     Star CSpace, Lit ''%}'']"

definition qrcode_re :: re where
  "qrcode_re = Seq [Lit ''{%'', Star CSpace, Lit ''qrcode'', Plus CSpace, Cap (Plus (CNot ''%'')),
     Star CSpace, Lit ''%}'']"

definition to_lower_char :: "char \<Rightarrow> char" where
  "to_lower_char c =
     (let n = (of_char c :: nat)
      in if (65 \<le> n \<and> n \<le> 90) \<or> (192 \<le> n \<and> n \<le> 222 \<and> n \<noteq> 215)
         then char_of (n + 32) else c)"

definition getImageExtension :: "'n asset_env \<Rightarrow> string \<Rightarrow> string" where
  "getImageExtension env src =
     (let ext = drop 1 (map to_lower_char (extname env src))
      in if ext = [] then ''png'' else ext)"

text \<open>
  The loop of \<open>_getImageData\<close> and \<open>_getQrData\<close> over the keys of the variable name; \<open>None\<close>
  is their \<open>return null\<close>.
\<close>

fun data_walk :: "'n runtime \<Rightarrow> string list \<Rightarrow> 'n jsval \<Rightarrow> 'n jsval option" where
  "data_walk rt [] v = Some v"
| "data_walk rt (key # keys) v =
     (if truthy rt v \<and> typeof rt v = ''object'' \<and> js_in rt key v
      then data_walk rt keys (js_get rt v key) else None)"

definition getData :: "'n runtime \<Rightarrow> string \<Rightarrow> string \<Rightarrow> 'n val \<Rightarrow> 'n jsval option" where
  "getData rt field variableName context =
     (case data_walk rt (split variableName ''.'') (Data context) of
        None \<Rightarrow> None
      | Some v \<Rightarrow>
          (case v of
             Data (VStr s) \<Rightarrow> Some (Data (VObj [(field, VStr s)]))
           | _ \<Rightarrow>
               (if typeof rt v = ''object'' \<and> v \<noteq> Data VNull \<and> truthy rt (js_get rt v field)
                then Some v else None)))"

definition getImageData :: "'n runtime \<Rightarrow> string \<Rightarrow> 'n val \<Rightarrow> 'n jsval option" where
  "getImageData rt variableName context = getData rt ''src'' variableName context"

definition getQrData :: "'n runtime \<Rightarrow> string \<Rightarrow> 'n val \<Rightarrow> 'n jsval option" where
  "getQrData rt variableName context = getData rt ''text'' variableName context"

text \<open>
  \<open>_createImageXml\<close>: the markup, the module and the world after the call.  Whatever throws
  inside its \<open>try\<close> ends in a warning and the empty string.  The increment of the counter
  stands after the two \<open>return\<close>s for \<open>docx\<close> and \<open>pptx\<close>.
\<close>

definition createImageXml ::
    "'n asset_env \<Rightarrow> 'n runtime \<Rightarrow> image_module \<Rightarrow> world \<Rightarrow> 'n jsval \<Rightarrow> 'n pcontext \<Rightarrow>
     string \<times> image_module \<times> world" where
  "createImageXml env rt m w imageData pc =
     (case js_get rt imageData ''src'' of
        Data (VStr src) \<Rightarrow>
          (case load_image env src of
             Inl e \<Rightarrow>
               ([], m, w \<lparr> warnings := warnings w @ [''Failed to process image: '' @ message e] \<rparr>)
           | Inr _ \<Rightarrow>
               (let imageExtension = getImageExtension env src;
                    imageName = ''image'' @ nat_to_string (imageCounter m) @ ''.'' @ imageExtension;
                    relationshipId = ''rId'' @ nat_to_string (1000 + imageCounter m);
                    w1 = w \<lparr> zip_media := zip_media w @ [(imageName, relationshipId)] \<rparr>
                in if pc_documentType pc = ''docx''
                   then (docx_image_xml env relationshipId imageData (imageCounter m), m, w1)
                   else if pc_documentType pc = ''pptx''
                   then (pptx_image_xml env relationshipId imageData (imageCounter m), m, w1)
                   else ([], m \<lparr> imageCounter := imageCounter m + 1 \<rparr>, w1)))
      | _ \<Rightarrow>
          ([], m, w \<lparr> warnings := warnings w
                         @ [''Failed to process image: src.startsWith is not a function''] \<rparr>))"

definition createQrCodeXml ::
    "'n asset_env \<Rightarrow> 'n runtime \<Rightarrow> qr_module \<Rightarrow> world \<Rightarrow> 'n jsval \<Rightarrow> 'n pcontext \<Rightarrow>
     string \<times> qr_module \<times> world" where
  "createQrCodeXml env rt m w qrData pc =
     (case make_qr env qrData of
        Inl e \<Rightarrow>
          ([], m, w \<lparr> warnings := warnings w @ [''Failed to generate QR code: '' @ message e] \<rparr>)
      | Inr _ \<Rightarrow>
          (let imageName = ''qrcode'' @ nat_to_string (qrCounter m) @ ''.png'';
               relationshipId = ''rId'' @ nat_to_string (2000 + qrCounter m);
               w1 = w \<lparr> zip_media := zip_media w @ [(imageName, relationshipId)] \<rparr>
           in if pc_documentType pc = ''docx''
              then (docx_qr_xml env relationshipId qrData (qrCounter m), m, w1)
              else if pc_documentType pc = ''pptx''
              then (pptx_qr_xml env relationshipId qrData (qrCounter m), m, w1)
              else ([], m \<lparr> qrCounter := qrCounter m + 1 \<rparr>, w1)))"

text \<open>
  \<open>process\<close>: the loop over the matches of the tag pattern in the content as given; the
  state is the processed content, the module and the world.
\<close>

definition image_step ::
    "'n asset_env \<Rightarrow> 'n runtime \<Rightarrow> 'n pcontext \<Rightarrow> rx_match \<Rightarrow> string \<times> image_module \<times> world \<Rightarrow>
     string \<times> image_module \<times> world" where
  "image_step env rt pc mt st =
     (case getImageData rt (trim (group_text mt 0)) (pc_context pc) of
        Some imageData \<Rightarrow>
          (let r = createImageXml env rt (fst (snd st)) (snd (snd st)) imageData pc
           in (replace_first env (fst st) (rx_text mt) (fst r), snd r))
      | None \<Rightarrow> (replace_first env (fst st) (rx_text mt) [], snd st))"

definition image_process ::
    "'n asset_env \<Rightarrow> 'n runtime \<Rightarrow> image_module \<Rightarrow> world \<Rightarrow> string \<Rightarrow> 'n pcontext \<Rightarrow>
     string \<times> image_module \<times> world" where
  "image_process env rt m w content pc =
     foldl (\<lambda>st mt. image_step env rt pc mt st) (content, m, w) (exec_all image_re 0 0 content)"

definition qr_step ::
    "'n asset_env \<Rightarrow> 'n runtime \<Rightarrow> 'n pcontext \<Rightarrow> rx_match \<Rightarrow> string \<times> qr_module \<times> world \<Rightarrow>
     string \<times> qr_module \<times> world" where
  "qr_step env rt pc mt st =
     (case getQrData rt (trim (group_text mt 0)) (pc_context pc) of
        Some qrData \<Rightarrow>
          (let r = createQrCodeXml env rt (fst (snd st)) (snd (snd st)) qrData pc
           in (replace_first env (fst st) (rx_text mt) (fst r), snd r))
      | None \<Rightarrow> (replace_first env (fst st) (rx_text mt) [], snd st))"

definition qr_process ::
    "'n asset_env \<Rightarrow> 'n runtime \<Rightarrow> qr_module \<Rightarrow> world \<Rightarrow> string \<Rightarrow> 'n pcontext \<Rightarrow>
     string \<times> qr_module \<times> world" where
  "qr_process env rt m w content pc =
     foldl (\<lambda>st mt. qr_step env rt pc mt st) (content, m, w) (exec_all qrcode_re 0 0 content)"

section \<open>A runtime for the examples\<close>

text \<open>
  Closed examples need a runtime.  \<open>example_runtime\<close> follows Node on plain data whose
  numbers are integers: a number is an integer or \<open>NaN\<close>, a numeric string is an optionally
  signed decimal integer (or empty, which \<open>Number\<close> reads as 0), the inherited members are
  those of \<open>Object.prototype\<close> and, for an array, those of \<open>Array.prototype\<close> too, and two
  objects are never the same object.
\<close>

datatype exnum = NInt int | NNaN

definition is_digit :: "char \<Rightarrow> bool" where
  "is_digit c = (c \<in> set ''0123456789'')"

definition digits_value :: "string \<Rightarrow> int" where
  "digits_value ds = foldl (\<lambda>a c. 10 * a + (of_char c - 48)) 0 ds"

definition int_to_string :: "int \<Rightarrow> string" where
  "int_to_string i = (if i < 0 then ''-'' @ nat_to_string (nat (- i)) else nat_to_string (nat i))"

definition ex_num_to_string :: "exnum \<Rightarrow> string" where
  "ex_num_to_string n = (case n of NInt i \<Rightarrow> int_to_string i | NNaN \<Rightarrow> ''NaN'')"

text \<open>\<open>parseFloat\<close>: the longest numeric prefix after leading white space.\<close>

definition ex_parseFloat :: "string \<Rightarrow> exnum" where
  "ex_parseFloat s =
     (let t = dropWhile is_space s;
          neg = startsWith t ''-'';
          u = (if startsWith t ''-'' \<or> startsWith t ''+'' then tl t else t);
          ds = takeWhile is_digit u
      in if ds = [] then NNaN else NInt (if neg then - digits_value ds else digits_value ds))"

text \<open>\<open>Number(s)\<close>: the whole trimmed string must be a numeral; the empty string is 0.\<close>

definition ex_Number :: "string \<Rightarrow> exnum" where
  "ex_Number s =
     (let t = trim s;
          u = (if startsWith t ''-'' \<or> startsWith t ''+'' then tl t else t)
      in if t = [] then NInt 0
         else if u \<noteq> [] \<and> list_all is_digit u then ex_parseFloat t
         else NNaN)"

definition ex_isNaN :: "string \<Rightarrow> bool" where
  "ex_isNaN s = (ex_Number s = NNaN)"

definition object_prototype_keys :: "string list" where
  "object_prototype_keys =
     [''constructor'', ''__defineGetter__'', ''__defineSetter__'', ''hasOwnProperty'',
      ''__lookupGetter__'', ''__lookupSetter__'', ''isPrototypeOf'', ''propertyIsEnumerable'',
      ''toString'', ''valueOf'', ''__proto__'', ''toLocaleString'']"

definition array_prototype_keys :: "string list" where
  "array_prototype_keys =
     [''at'', ''concat'', ''copyWithin'', ''fill'', ''find'', ''findIndex'', ''findLast'',
      ''findLastIndex'', ''lastIndexOf'', ''pop'', ''push'', ''reverse'', ''shift'', ''unshift'',
      ''slice'', ''sort'', ''splice'', ''includes'', ''indexOf'', ''join'', ''keys'', ''entries'',
      ''values'', ''forEach'', ''filter'', ''flat'', ''flatMap'', ''map'', ''every'', ''some'',
      ''reduce'', ''reduceRight'', ''toReversed'', ''toSorted'', ''toSpliced'', ''with'']"

definition ex_inherited :: "exnum jsval \<Rightarrow> string \<Rightarrow> exnum jsval option" where
  "ex_inherited v k =
     (let keys = (case v of
                    Data (VObj _) \<Rightarrow> object_prototype_keys
                  | Data (VArr _) \<Rightarrow> object_prototype_keys @ array_prototype_keys
                  | Builtin b \<Rightarrow> (if b = ''__proto__'' then object_prototype_keys else [])
                  | _ \<Rightarrow> [])
      in if k \<in> set keys then Some (Builtin k) else None)"

definition ex_typeof_builtin :: "string \<Rightarrow> string" where
  "ex_typeof_builtin b = (if b = ''__proto__'' then ''object'' else ''function'')"

definition join :: "string \<Rightarrow> string list \<Rightarrow> string" where
  "join sep xs = (case xs of [] \<Rightarrow> [] | y # ys \<Rightarrow> y @ concat (map (\<lambda>z. sep @ z) ys))"

text \<open>
  The string that \<open>+=\<close> and the comparisons make of a value.  An array joins its elements
  with commas; a plain object answers \<open>[object Object]\<close> unless an own \<open>toString\<close> (a datum,
  not callable) leaves the conversion without a primitive.
\<close>

fun ex_to_string :: "exnum val \<Rightarrow> js_error + string" where
  "ex_to_string VUndefined = Inr ''undefined''"
| "ex_to_string VNull = Inr ''null''"
| "ex_to_string (VBool b) = Inr (if b then ''true'' else ''false'')"
| "ex_to_string (VNum n) = Inr (ex_num_to_string n)"
| "ex_to_string (VStr s) = Inr s"
| "ex_to_string (VArr xs) =
     (let parts = map (\<lambda>x. if x = VUndefined \<or> x = VNull then Inr [] else ex_to_string x) xs
      in case List.find isl parts of
           Some (Inl e) \<Rightarrow> Inl e
         | _ \<Rightarrow> Inr (join '','' (map projr parts)))"
| "ex_to_string (VObj kvs) =
     (if map_of kvs ''toString'' \<noteq> None
      then Inl (TypeError ''Cannot convert object to primitive value'')
      else Inr ''[object Object]'')"

definition ex_to_primitive_string :: "exnum jsval \<Rightarrow> js_error + string" where
  "ex_to_primitive_string v =
     (case v of
        Data d \<Rightarrow> ex_to_string d
      | Builtin b \<Rightarrow>
          Inr (if b = ''__proto__'' then ''[object Object]''
               else ''function '' @ b @ ''() { [native code] }''))"

text \<open>
  The six comparison operators on primitives, after ECMAScript's loose equality and
  relational comparison; an object operand is first turned into its string.
\<close>

definition ex_primitive :: "exnum jsval \<Rightarrow> js_error + exnum val" where
  "ex_primitive v =
     (case v of
        Data (VArr xs) \<Rightarrow> map_sum id VStr (ex_to_string (VArr xs))
      | Data (VObj kvs) \<Rightarrow> map_sum id VStr (ex_to_string (VObj kvs))
      | Data d \<Rightarrow> Inr d
      | Builtin b \<Rightarrow> map_sum id VStr (ex_to_primitive_string (Builtin b)))"

definition ex_is_object :: "exnum jsval \<Rightarrow> bool" where
  "ex_is_object v = (case v of Data (VArr _) \<Rightarrow> True | Data (VObj _) \<Rightarrow> True | Builtin _ \<Rightarrow> True | _ \<Rightarrow> False)"

definition ex_to_number :: "exnum val \<Rightarrow> exnum" where
  "ex_to_number v =
     (case v of
        VNull \<Rightarrow> NInt 0
      | VBool b \<Rightarrow> NInt (if b then 1 else 0)
      | VNum n \<Rightarrow> n
      | VStr s \<Rightarrow> ex_Number s
      | _ \<Rightarrow> NNaN)"

definition ex_num_eq :: "exnum \<Rightarrow> exnum \<Rightarrow> bool" where
  "ex_num_eq a b = (case (a, b) of (NInt i, NInt j) \<Rightarrow> i = j | _ \<Rightarrow> False)"

definition ex_num_less :: "exnum \<Rightarrow> exnum \<Rightarrow> bool option" where
  "ex_num_less a b = (case (a, b) of (NInt i, NInt j) \<Rightarrow> Some (i < j) | _ \<Rightarrow> None)"

fun str_less :: "string \<Rightarrow> string \<Rightarrow> bool" where
  "str_less [] [] = False"
| "str_less [] (b # bs) = True"
| "str_less (a # as) [] = False"
| "str_less (a # as) (b # bs) =
     (if a = b then str_less as bs else (of_char a :: nat) < of_char b)"

definition ex_loose_eq :: "exnum val \<Rightarrow> exnum val \<Rightarrow> bool" where
  "ex_loose_eq a b =
     (if a = VNull \<or> a = VUndefined then b = VNull \<or> b = VUndefined
      else if b = VNull \<or> b = VUndefined then False
      else case (a, b) of
             (VStr s, VStr t) \<Rightarrow> s = t
           | _ \<Rightarrow> ex_num_eq (ex_to_number a) (ex_to_number b))"

definition ex_less :: "exnum val \<Rightarrow> exnum val \<Rightarrow> bool option" where
  "ex_less a b =
     (case (a, b) of
        (VStr s, VStr t) \<Rightarrow> Some (str_less s t)
      | _ \<Rightarrow> ex_num_less (ex_to_number a) (ex_to_number b))"

definition ex_compare :: "string \<Rightarrow> exnum jsval \<Rightarrow> exnum jsval \<Rightarrow> js_error + bool" where
  "ex_compare op x y =
     (if (op = ''=='' \<or> op = ''!='') \<and> ex_is_object x \<and> ex_is_object y
      then Inr (op = ''!='')
      else case ex_primitive x of
        Inl e \<Rightarrow> Inl e
      | Inr a \<Rightarrow>
         (case ex_primitive y of
            Inl e \<Rightarrow> Inl e
          | Inr b \<Rightarrow>
              Inr (if op = ''=='' then ex_loose_eq a b
                   else if op = ''!='' then \<not> ex_loose_eq a b
                   else if op = ''<'' then ex_less a b = Some True
                   else if op = ''>'' then ex_less b a = Some True
                   else if op = ''<='' then ex_less b a = Some False
                   else ex_less a b = Some False)))"

text \<open>\<open>JSON.stringify\<close> on data, with the keys of an object in insertion order.\<close>

definition hex_digit :: "nat \<Rightarrow> char" where
  "hex_digit n = ''0123456789abcdef'' ! (n mod 16)"

definition json_escape_char :: "char \<Rightarrow> string" where
  "json_escape_char c =
     (if c = CHR 0x22 then [CHR 0x5C, CHR 0x22]
      else if c = CHR 0x5C then [CHR 0x5C, CHR 0x5C]
      else if c = CHR 0x08 then [CHR 0x5C, CHR ''b'']
      else if c = CHR 0x0C then [CHR 0x5C, CHR ''f'']
      else if c = CHR 0x0A then [CHR 0x5C, CHR ''n'']
      else if c = CHR 0x0D then [CHR 0x5C, CHR ''r'']
      else if c = CHR 0x09 then [CHR 0x5C, CHR ''t'']
      else if (of_char c :: nat) < 32
        then [CHR 0x5C, CHR ''u'', CHR ''0'', CHR ''0'', hex_digit (of_char c div 16), hex_digit (of_char c)]
      else [c])"

definition json_quote :: "string \<Rightarrow> string" where
  "json_quote s = [CHR 0x22] @ concat (map json_escape_char s) @ [CHR 0x22]"

fun ex_json :: "exnum val \<Rightarrow> string" where
  "ex_json VUndefined = ''null''"
| "ex_json VNull = ''null''"
| "ex_json (VBool b) = (if b then ''true'' else ''false'')"
| "ex_json (VNum n) = (case n of NInt i \<Rightarrow> int_to_string i | NNaN \<Rightarrow> ''null'')"
| "ex_json (VStr s) = json_quote s"
| "ex_json (VArr xs) = ''['' @ join '','' (map ex_json xs) @ '']''"
| "ex_json (VObj kvs) =
     ''{'' @ join '','' (map (\<lambda>(k, v). json_quote k @ '':'' @ ex_json v)
                          (filter (\<lambda>(k, v). v \<noteq> VUndefined) kvs)) @ ''}''"

definition example_runtime :: "exnum runtime" where
  "example_runtime =
     \<lparr> num_of_nat = (\<lambda>n. NInt (int n)),
       num_truthy = (\<lambda>n. n \<noteq> NNaN \<and> n \<noteq> NInt 0),
       num_to_string = ex_num_to_string,
       isNaN = ex_isNaN,
       parseFloat = ex_parseFloat,
       compare = ex_compare,
       object_to_primitive = ex_to_primitive_string,
       json_stringify = (\<lambda>v. case v of Data d \<Rightarrow> ex_json d | Builtin b \<Rightarrow> ''{}''),
       inherited = ex_inherited,
       typeof_builtin = ex_typeof_builtin \<rparr>"

section \<open>Modules for the examples\<close>

text \<open>Registering modules one after the other; the first throw ends it.\<close>

definition register_all :: "'n module list \<Rightarrow> 'n manager \<Rightarrow> js_error + 'n manager" where
  "register_all ms mgr =
     foldl (\<lambda>r m. case r of Inl e \<Rightarrow> Inl e | Inr g \<Rightarrow> register m g) (Inr mgr) ms"

definition simple_module :: "string \<Rightarrow> int option \<Rightarrow> exnum module" where
  "simple_module n p =
     \<lparr> name = n, process_method = Some (\<lambda>content pc. Inr content), priority = p,
       supportedTypes = None, hasTagsToProcess = None \<rparr>"









text \<open>A context for the resolver, and one whose inner object has a key \<open>hasOwnProperty\<close>.\<close>

definition shop_context :: "exnum val" where
  "shop_context = VObj [(''a'', VStr ''x''), (''items'', VArr [VStr ''p'', VStr ''q''])]"

definition shadow_context :: "exnum val" where
  "shadow_context = VObj [(''a'', VObj [(''hasOwnProperty'', VNum (NInt 1))])]"



text \<open>
  An environment for the examples: every image loads, every QR code is generated, the
  extension is the text from the last dot on, the markup is the relationship id alone.
\<close>

definition ex_extname :: "string \<Rightarrow> string" where
  "ex_extname src =
     (let r = takeWhile (\<lambda>c. c \<noteq> CHR ''.'' \<and> c \<noteq> CHR ''/'') (rev src)
      in if length r < length src \<and> rev src ! length r = CHR ''.'' \<and> length r + 1 < length src
            \<and> rev src ! (length r + 1) \<noteq> CHR ''/''
         then ''.'' @ rev r else [])"

fun ex_replace_first :: "string \<Rightarrow> string \<Rightarrow> string \<Rightarrow> string" where
  "ex_replace_first [] pat rep = (if pat = [] then rep else [])"
| "ex_replace_first (c # cs) pat rep =
     (if startsWith (c # cs) pat then rep @ drop (length pat) (c # cs)
      else c # ex_replace_first cs pat rep)"

definition example_env :: "exnum asset_env" where
  "example_env =
     \<lparr> load_image = (\<lambda>src. Inr ()),
       make_qr = (\<lambda>text. Inr ()),
       extname = ex_extname,
       replace_first = ex_replace_first,
       docx_image_xml = (\<lambda>rid d n. rid),
       pptx_image_xml = (\<lambda>rid d n. rid),
       docx_qr_xml = (\<lambda>rid d n. rid),
       pptx_qr_xml = (\<lambda>rid d n. rid) \<rparr>"



definition pic_context :: "string \<Rightarrow> exnum pcontext" where
  "pic_context documentType =
     \<lparr> pc_context = VObj [(''pic'', VStr ''a.png'')], pc_documentType = documentType,
       pc_errorOnMissingData = False, pc_content = None \<rparr>"


definition empty_world :: world where
  "empty_world = \<lparr> zip_media = [], warnings = [] \<rparr>"

section \<open>Properties\<close>

lemma typeof_string_iff: "typeof rt (Data v) = ''string'' \<longleftrightarrow> (\<exists>s. v = VStr s)"
  by (cases v) (simp_all add: typeof_def)

subsection \<open>Array indices\<close>

lemma digit_nth: "d < 10 \<Longrightarrow> (of_char (''0123456789'' ! d) :: int) = 48 + int d"
  by (auto simp add: less_Suc_eq numeral_eq_Suc nth_Cons')

lemma digit_nth_mem: "d < 10 \<Longrightarrow> ''0123456789'' ! d \<in> set ''0123456789''"
  by (rule nth_mem) simp

lemma digits_value_snoc: "digits_value (ds @ [c]) = 10 * digits_value ds + (of_char c - 48)"
  by (simp add: digits_value_def)

lemma digits_value_nat_to_string: "digits_value (nat_to_string n) = int n"
proof (induction n rule: nat_to_string.induct)
  case (1 n)
  show ?case
  proof (cases "n < 10")
    case True
    then show ?thesis
      by (subst nat_to_string.simps) (simp add: digits_value_def digit_nth)
  next
    case False
    with 1 have "digits_value (nat_to_string (n div 10)) = int (n div 10)" by simp
    with False show ?thesis
      by (subst nat_to_string.simps) (simp add: digits_value_snoc digit_nth zdiv_int zmod_int)
  qed
qed

lemma nat_to_string_inj: "nat_to_string i = nat_to_string j \<Longrightarrow> i = j"
  by (metis digits_value_nat_to_string of_nat_eq_iff)

lemma nat_to_string_digits: "set (nat_to_string n) \<subseteq> set ''0123456789''"
proof (induction n rule: nat_to_string.induct)
  case (1 n)
  show ?case
  proof (cases "n < 10")
    case True
    then show ?thesis
      using digit_nth_mem [of n] by (subst nat_to_string.simps) simp
  next
    case False
    with 1 have "set (nat_to_string (n div 10)) \<subseteq> set ''0123456789''" by simp
    with False show ?thesis
      using digit_nth_mem [of "n mod 10"] by (subst nat_to_string.simps) simp
  qed
qed

lemma array_index_less: "array_index key n = Some i \<Longrightarrow> i < n"
  by (auto simp: array_index_def find_Some_iff)

lemma array_index_out_of_range: "n \<le> i \<Longrightarrow> array_index (nat_to_string i) n = None"
  by (auto simp: array_index_def find_None_iff dest: nat_to_string_inj)

lemma array_index_not_digits: "\<not> set key \<subseteq> set ''0123456789'' \<Longrightarrow> array_index key n = None"
  using nat_to_string_digits by (auto simp: array_index_def find_None_iff)

lemma own_property_out_of_range:
  "length xs \<le> i \<Longrightarrow> own_property rt (VArr xs) (nat_to_string i) = None"
proof -
  assume "length xs \<le> i"
  moreover have "nat_to_string i \<noteq> ''length''"
    using nat_to_string_digits [of i] by auto
  ultimately show ?thesis
    by (simp add: own_property_def array_index_out_of_range)
qed

lemma scalar_own_property:
  "c = VNull \<or> typeof rt (Data c) \<noteq> ''object'' \<Longrightarrow> own_property rt c k = None"
  by (cases c) (simp_all add: own_property_def typeof_def)

lemma scalar_not_object: "scalar c \<Longrightarrow> c = VNull \<or> typeof rt (Data c) \<noteq> ''object''"
  by (cases c) (simp_all add: scalar_def typeof_def)

lemma plain_hasOwnProperty:
  assumes "plain rt c" and "c \<noteq> VNull" and "typeof rt (Data c) = ''object''"
  shows "hasOwnProperty rt c k = Inr (own_property rt c k \<noteq> None)"
proof (cases c)
  case (VObj kvs)
  with assms(1) show ?thesis
    by (simp add: hasOwnProperty_def inherits_hasOwnProperty_def own_property_def)
next
  case (VArr xs)
  with assms(1) show ?thesis
    by (simp add: hasOwnProperty_def inherits_hasOwnProperty_def own_property_def
        array_index_not_digits)
qed (use assms in \<open>simp_all add: typeof_def\<close>)

lemma plain_own_property:
  assumes "plain rt c" and "own_property rt c k = Some x"
  shows "plain rt x"
proof (cases c)
  case (VObj kvs)
  with assms show ?thesis
    by (auto simp: own_property_def list_all_iff dest!: map_of_SomeD)
next
  case (VArr xs)
  with assms show ?thesis
    by (auto simp: own_property_def list_all_iff split: if_splits dest: array_index_less)
qed (use assms in \<open>simp_all add: own_property_def\<close>)

lemma resolve_parts_own_path:
  "plain rt c \<Longrightarrow>
   resolve_parts rt ks c d = Inr (case own_path rt ks c of Some v \<Rightarrow> v | None \<Rightarrow> d)"
proof (induction ks arbitrary: c)
  case Nil
  then show ?case by simp
next
  case (Cons k ks)
  show ?case
  proof (cases "c = VNull \<or> typeof rt (Data c) \<noteq> ''object''")
    case True
    then have "own_property rt c k = None" by (rule scalar_own_property)
    with True show ?thesis by simp
  next
    case False
    then have has: "hasOwnProperty rt c k = Inr (own_property rt c k \<noteq> None)"
      using Cons.prems by (simp add: plain_hasOwnProperty)
    show ?thesis
    proof (cases "own_property rt c k")
      case None
      with False has show ?thesis by simp
    next
      case (Some x)
      with Cons.prems have "plain rt x" by (rule plain_own_property)
      then have "resolve_parts rt ks x d = Inr (case own_path rt ks x of Some v \<Rightarrow> v | None \<Rightarrow> d)"
        by (rule Cons.IH)
      with False has Some show ?thesis by (simp add: get_own_def)
    qed
  qed
qed

lemma own_path_append:
  "own_path rt (ks @ ks') v =
     (case own_path rt ks v of None \<Rightarrow> None | Some c \<Rightarrow> own_path rt ks' c)"
  by (induction ks arbitrary: v) (simp_all split: option.splits)

lemma own_path_not_found:
  assumes "own_path rt ks v = Some c"
    and "scalar c \<or> (\<exists>kvs. c = VObj kvs \<and> map_of kvs k = None)
         \<or> (\<exists>xs i. c = VArr xs \<and> k = nat_to_string i \<and> length xs \<le> i)"
  shows "own_path rt (ks @ k # rest) v = None"
proof -
  have "own_property rt c k = None"
    using assms(2) scalar_not_object [of c rt] scalar_own_property [of c rt k]
      own_property_out_of_range [of _ _ rt]
    by (auto simp: own_property_def)
  with assms(1) show ?thesis by (simp add: own_path_append)
qed

lemma getValue_keys_scalar: "scalar c \<Longrightarrow> isl (getValue_keys rt (k # ks) (Data c))"
  by (cases c) (simp_all add: scalar_def typeof_def)

lemma getValue_keys_missing:
  "own_property rt c k = None \<Longrightarrow> inherited rt (Data c) k = None \<Longrightarrow>
   isl (getValue_keys rt (k # ks) (Data c))"
  by (simp add: js_in_def)

lemma getValue_keys_own_path:
  "own_path rt ks v = Some c \<Longrightarrow>
   getValue_keys rt (ks @ rest) (Data v) = getValue_keys rt rest (Data c)"
proof (induction ks arbitrary: v)
  case Nil
  then show ?case by simp
next
  case (Cons k ks)
  then obtain x where x: "own_property rt v k = Some x" and "own_path rt ks x = Some c"
    by (auto split: option.splits)
  then have "getValue_keys rt (ks @ rest) (Data x) = getValue_keys rt rest (Data c)"
    using Cons.IH by blast
  moreover from x have "v \<noteq> VNull" "v \<noteq> VUndefined" "typeof rt (Data v) = ''object''"
    by (cases v; simp add: own_property_def typeof_def)+
  ultimately show ?case
    using x by (simp add: js_in_def js_get_def)
qed

lemma getValue_not_found:
  assumes "split path ''.'' = ks @ k # rest" and "own_path rt ks context = Some c"
    and "scalar c \<or> (own_property rt c k = None \<and> inherited rt (Data c) k = None)"
  shows "isl (getValue rt path context)"
proof -
  have "isl (getValue_keys rt (k # rest) (Data c))"
    using assms(3) getValue_keys_scalar [of c rt k rest] getValue_keys_missing [of rt c k rest]
    by blast
  with assms(1,2) show ?thesis
    by (simp add: getValue_def getValue_keys_own_path)
qed

lemma shop_context_plain: "plain example_runtime shop_context"
  by code_simp

lemma shop_context_truthy: "truthy example_runtime (Data shop_context)"
  by code_simp

lemma shop_context_paths:
  "split ''a.b.c'' ''.'' = [''a''] @ ''b'' # [''c'']"
  "own_path example_runtime [''a''] shop_context = Some (VStr ''x'')"
  "split ''age'' ''.'' = [] @ ''age'' # []"
  "own_path example_runtime [] shop_context = Some shop_context"
  "split ''items.5'' ''.'' = [''items''] @ nat_to_string 5 # []"
  "own_path example_runtime [''items''] shop_context = Some (VArr [VStr ''p'', VStr ''q''])"
  "own_path example_runtime (split ''items.1'' ''.'') shop_context = Some (VStr ''q'')"
  by code_simp+

text \<open>
  C3 (as amended).  On a plain context \<open>ContextResolver.resolve\<close> returns normally for every
  path string and default: it answers the value at the end of the path of own properties,
  and the default when there is none.  In particular it answers the default when the path
  comes, at any step, to a scalar, to an object without the key, or to an array with an
  index out of its range.  \<open>ContextProcessor._getValue\<close> signals these cases by throwing:
  its result is an error when the path comes to a scalar or to a key that is neither an own
  nor an inherited property.
\<close>

theorem resolve_not_found:
  assumes "plain rt context"
  shows "resolve rt context (VStr path) d =
           Inr (if truthy rt (Data context) \<and> path \<noteq> []
                then (case own_path rt (split path ''.'') context of Some v \<Rightarrow> v | None \<Rightarrow> d)
                else d) \<and>
         (\<forall>ks k rest c.
            split path ''.'' = ks @ k # rest \<and> own_path rt ks context = Some c \<and>
            (scalar c \<or> (\<exists>kvs. c = VObj kvs \<and> map_of kvs k = None)
             \<or> (\<exists>xs i. c = VArr xs \<and> k = nat_to_string i \<and> length xs \<le> i))
            \<longrightarrow> resolve rt context (VStr path) d = Inr d) \<and>
         (\<forall>ks k rest c.
            split path ''.'' = ks @ k # rest \<and> own_path rt ks context = Some c \<and>
            (scalar c \<or> (own_property rt c k = None \<and> inherited rt (Data c) k = None))
            \<longrightarrow> isl (getValue rt path context))"
proof -
  have eq: "resolve rt context (VStr path) d =
           Inr (if truthy rt (Data context) \<and> path \<noteq> []
                then (case own_path rt (split path ''.'') context of Some v \<Rightarrow> v | None \<Rightarrow> d)
                else d)"
    using resolve_parts_own_path [OF assms] by (simp add: resolve_def typeof_def str_of_def)
  have "resolve rt context (VStr path) d = Inr d"
    if "split path ''.'' = ks @ k # rest" and "own_path rt ks context = Some c"
      and "scalar c \<or> (\<exists>kvs. c = VObj kvs \<and> map_of kvs k = None)
           \<or> (\<exists>xs i. c = VArr xs \<and> k = nat_to_string i \<and> length xs \<le> i)"
    for ks k rest c
  proof -
    from that(2,3) have "own_path rt (ks @ k # rest) context = None"
      by (rule own_path_not_found)
    with that(1) eq show ?thesis by simp
  qed
  moreover have "isl (getValue rt path context)"
    if "split path ''.'' = ks @ k # rest" and "own_path rt ks context = Some c"
      and "scalar c \<or> (own_property rt c k = None \<and> inherited rt (Data c) k = None)"
    for ks k rest c
    using that by (rule getValue_not_found)
  ultimately show ?thesis using eq by blast
qed

theorem resolve_not_found_witness:
  "plain example_runtime shop_context \<and>
   resolve example_runtime shop_context (VStr ''a.b.c'') (VStr ''dflt'') = Inr (VStr ''dflt'') \<and>
   resolve example_runtime shop_context (VStr ''age'') (VStr ''dflt'') = Inr (VStr ''dflt'') \<and>
   resolve example_runtime shop_context (VStr ''items.5'') (VStr ''dflt'') = Inr (VStr ''dflt'') \<and>
   resolve example_runtime shop_context (VStr ''items.1'') (VStr ''dflt'') = Inr (VStr ''q'') \<and>
   isl (getValue example_runtime ''a.b.c'' shop_context)"
proof -
  note T = resolve_not_found [OF shop_context_plain]
  have "scalar (VStr ''x'' :: exnum val)" by (simp add: scalar_def)
  with T [of "''a.b.c''" "VStr ''dflt''"] shop_context_paths(1,2)
  have 1: "resolve example_runtime shop_context (VStr ''a.b.c'') (VStr ''dflt'') = Inr (VStr ''dflt'')"
    by blast
  have "\<exists>kvs. shop_context = VObj kvs \<and> map_of kvs ''age'' = None"
    by (simp add: shop_context_def)
  with T [of "''age''" "VStr ''dflt''"] shop_context_paths(3,4)
  have 2: "resolve example_runtime shop_context (VStr ''age'') (VStr ''dflt'') = Inr (VStr ''dflt'')"
    by blast
  have "\<exists>xs i. VArr [VStr ''p'', VStr ''q''] = (VArr xs :: exnum val)
          \<and> nat_to_string 5 = nat_to_string i \<and> length xs \<le> i"
    by (intro exI [of _ "[VStr ''p'', VStr ''q'']"] exI [of _ 5]) simp
  with T [of "''items.5''" "VStr ''dflt''"] shop_context_paths(5,6)
  have 3: "resolve example_runtime shop_context (VStr ''items.5'') (VStr ''dflt'') = Inr (VStr ''dflt'')"
    by blast
  from T [of "''items.1''" "VStr ''dflt''"]
  have "resolve example_runtime shop_context (VStr ''items.1'') (VStr ''dflt'') =
          Inr (if truthy example_runtime (Data shop_context) \<and> ''items.1'' \<noteq> []
               then (case own_path example_runtime (split ''items.1'' ''.'') shop_context of
                       Some v \<Rightarrow> v | None \<Rightarrow> VStr ''dflt'')
               else VStr ''dflt'')"
    by blast
  then have 4: "resolve example_runtime shop_context (VStr ''items.1'') (VStr ''dflt'') = Inr (VStr ''q'')"
    by (simp add: shop_context_truthy shop_context_paths(7))
  have "scalar (VStr ''x'' :: exnum val)" by (simp add: scalar_def)
  with T [of "''a.b.c''" "VStr ''dflt''"] shop_context_paths(1,2)
  have 5: "isl (getValue example_runtime ''a.b.c'' shop_context)"
    by blast
  from 1 2 3 4 5 shop_context_plain show ?thesis by blast
qed

theorem getValue_raises_counterexample:
  "getValue example_runtime ''a.b.c'' (VObj [(''a'', VNum (NInt 1))])
     = Inl (Error (''Property '' @ quoted ''b'' @ '' not found in context'')) \<and>
   resolve example_runtime shadow_context (VStr ''a.b'') VUndefined
     = Inl (TypeError ''current.hasOwnProperty is not a function'')"
  by code_simp

text \<open>
  An object without a prototype has no method \<open>hasOwnProperty\<close>: in a runtime whose objects
  inherit nothing, \<open>resolve\<close> throws at the first segment.
\<close>

lemma resolve_null_prototype:
  "resolve (example_runtime \<lparr> inherited := (\<lambda>v k. None) \<rparr>) (VObj [(''a'', VNum (NInt 1))])
     (VStr ''a'') VUndefined
     = Inl (TypeError ''current.hasOwnProperty is not a function'')"
  by code_simp

text \<open>
  C10.  Whatever the context and the default, \<open>ContextResolver.resolve\<close> answers the default
  (\<open>undefined\<close> when it is omitted) as soon as the path is the empty string, the path is not
  a string, or the context is \<open>null\<close> or \<open>undefined\<close>: the guard comes before the traversal,
  so the empty path does not answer the root context.
\<close>

theorem resolve_guard_default:
  assumes "path = VStr [] \<or> (\<forall>s. path \<noteq> VStr s) \<or> context = VNull \<or> context = VUndefined"
  shows "resolve rt context path d = Inr d \<and> resolve2 rt context path = Inr VUndefined"
proof -
  have "\<not> truthy rt (Data context) \<or> typeof rt (Data path) \<noteq> ''string'' \<or> length (str_of path) = 0"
    using assms by (auto simp: truthy_def typeof_string_iff str_of_def)
  then show ?thesis
    unfolding resolve2_def resolve_def by presburger
qed

theorem resolve_guard_default_witness:
  "resolve example_runtime (VObj [(''name'', VStr ''John'')]) (VStr []) (VStr ''dflt'') = Inr (VStr ''dflt'')
   \<and> resolve2 example_runtime (VObj [(''name'', VStr ''John'')]) (VStr []) = Inr VUndefined"
  using resolve_guard_default [of "VStr []" "VObj [(''name'', VStr ''John'')]" example_runtime "VStr ''dflt''"]
  by simp

subsection \<open>Rendering placeholders and loops\<close>

lemma parse_missing:
  "parse ''{{missing}}'' = [Placeholder \<lparr>index = 0, len = 11, fullMatch = ''{{missing}}''\<rparr> ''missing'']"
  by code_simp

lemma split_missing: "split ''missing'' ''.'' = [''missing'']"
  by code_simp

lemma process_placeholder_missing:
  assumes "own_property rt context ''missing'' = None"
    and "inherited rt (Data context) ''missing'' = None"
  shows "processPlaceholder rt opts ''missing'' context =
           (if errorOnMissingData opts then Inl (Error ''Missing data for placeholder: missing'')
            else Inr (nullGetter opts ()))"
proof -
  have "isl (getValue rt ''missing'' context)"
    unfolding getValue_def split_missing using assms by (rule getValue_keys_missing)
  then obtain e where "getValue rt ''missing'' context = Inl e"
    by (cases "getValue rt ''missing'' context") auto
  then show ?thesis by (simp add: processPlaceholder_def)
qed

text \<open>
  C5 (as amended).  The template \<open>{{missing}}\<close>, a context without the key, no module.  In
  lenient mode the output is what \<open>nullGetter\<close> answers (the empty string by default) and the
  templater is unchanged: no error is recorded.  In strict mode the call raises
  \<open>Missing data for placeholder: missing\<close>, after recording it in the error list.
\<close>

theorem missing_placeholder:
  assumes "own_property rt (t_context t) ''missing'' = None"
    and "inherited rt (Data (t_context t)) ''missing'' = None"
    and "processingOrder (t_moduleManager t) = []"
  shows "processXmlContent rt t ''{{missing}}'' documentType =
           (if errorOnMissingData (t_options t)
            then (Inl (Error ''Missing data for placeholder: missing''),
                  t \<lparr> t_errors := t_errors t @
                        [\<lparr> err_message = ''Missing data for placeholder: missing'',
                           err_location = ''XML processing'',
                           err_documentType = documentType \<rparr>] \<rparr>)
            else (Inr (nullGetter (t_options t) ()), t))"
  using assms
  by (simp add: processXmlContent_def parse_missing process_placeholder_missing then_append_def
      manager_process_def message_def)

theorem missing_placeholder_witness:
  "processXmlContent example_runtime (new_templater default_options) ''{{missing}}'' ''docx''
     = (Inr [], new_templater default_options)"
  using missing_placeholder [of example_runtime "new_templater default_options" "''docx''"]
  by (simp add: new_templater_def new_manager_def default_options_def own_property_def
      example_runtime_def ex_inherited_def object_prototype_keys_def)

theorem missing_placeholder_lenient_counterexample:
  "fst (processXmlContent example_runtime (new_templater default_options) ''{{missing}}'' ''docx'')
     = Inr [] \<and>
   t_errors (snd (processXmlContent example_runtime (new_templater default_options)
                    ''{{missing}}'' ''docx'')) = []"
  by code_simp

lemma append_results_replicate:
  "append_results (replicate n (Inr c)) = Inr (concat (replicate n c))"
  by (induction n) simp_all

lemma process_parseContent: "process rt opts (parseContent content) context = Inr content"
  by (simp add: parseContent_def then_append_def)

text \<open>
  Whatever the loop variable and the elements are, a loop over an array of \<open>n\<close> elements
  answers its body \<open>n\<close> times, as it stands in the template.
\<close>

lemma processLoop_verbatim:
  assumes "getValue rt collection context = Inr (Data (VArr xs))"
  shows "processLoop rt opts variable collection content context
           = Inr (concat (replicate (length xs) content))"
proof -
  have "map (\<lambda>i. process rt opts (parseContent content) (loopContext rt context variable xs i))
          [0..<length xs] = replicate (length xs) (Inr content)"
    by (simp add: process_parseContent map_replicate_const)
  then show ?thesis
    using assms by (simp add: append_results_replicate)
qed

text \<open>
  C2.  The two loops of the claim, rendered by \<open>_processXmlContent\<close> in lenient mode: the
  body comes out three times (twice) as text, placeholders and inner loop unresolved, and
  the second \<open>endloop\<close> is lost to the text that follows the first loop.
\<close>

theorem loop_body_verbatim:
  "fst (processXmlContent example_runtime
          ((new_templater default_options)
             \<lparr> t_context := VObj [(''items'', VArr [VNum (NInt 1), VNum (NInt 2), VNum (NInt 3)])] \<rparr>)
          ''{%loop x in items%}{{x}},{%endloop%}'' ''docx'')
     = Inr ''{{x}},{{x}},{{x}},'' \<and>
   fst (processXmlContent example_runtime
          ((new_templater default_options)
             \<lparr> t_context := VObj [(''b'', VArr [VArr [VNum (NInt 1), VNum (NInt 2)],
                                                 VArr [VNum (NInt 3)]])] \<rparr>)
          ''{%loop a in b%}{%loop c in a%}{{c}}{%endloop%}{%endloop%}'' ''docx'')
     = Inr ''{%loop c in a%}{{c}}{%loop c in a%}{{c}}{%endloop%}''"
  by code_simp

text \<open>
  C6.  \<open>parse\<close> makes an ordinary placeholder named \<open>?bio\<close> of \<open>{{?bio}}\<close>: the placeholder
  pattern is tried first and the match of the paragraph pattern, at the same index, is
  dropped as part of it.  So in lenient mode \<open>{{?bio}}\<close> renders the empty string whether
  \<open>bio\<close> is empty or not, where \<open>{{bio}}\<close> renders the value; and the result of the call is
  the text alone.
\<close>

theorem paragraph_placeholder_lost:
  "parse ''{{?bio}}'' = [Placeholder \<lparr>index = 0, len = 8, fullMatch = ''{{?bio}}''\<rparr> ''?bio''] \<and>
   fst (processXmlContent example_runtime
          ((new_templater default_options) \<lparr> t_context := VObj [(''bio'', VStr ''hi'')] \<rparr>)
          ''{{?bio}}'' ''docx'') = Inr [] \<and>
   fst (processXmlContent example_runtime
          ((new_templater default_options) \<lparr> t_context := VObj [(''bio'', VStr ''hi'')] \<rparr>)
          ''{{bio}}'' ''docx'') = Inr ''hi'' \<and>
   fst (processXmlContent example_runtime
          ((new_templater default_options) \<lparr> t_context := VObj [(''bio'', VStr [])] \<rparr>)
          ''{{?bio}}'' ''docx'') = Inr []"
  by code_simp

subsection \<open>The module manager\<close>









subsection \<open>The order of the modules\<close>

text \<open>
  Inserting an element into a sorted list after the last element that is not greater is
  what a stable sort does with the list and the element appended.
\<close>

lemma mset_takeWhile_dropWhile: "mset (takeWhile P S) + mset (dropWhile P S) = mset S"
proof -
  have "mset (takeWhile P S) + mset (dropWhile P S) = mset (takeWhile P S @ dropWhile P S)"
    by (simp only: mset_append)
  then show ?thesis
    by (simp only: takeWhile_dropWhile_id)
qed

lemma dropWhile_above:
  fixes f :: "'a \<Rightarrow> int"
  assumes "sorted (map f S)" and "y \<in> set (dropWhile (\<lambda>x. f x \<le> b) S)"
  shows "b < f y"
  using assms
proof (induction S)
  case Nil
  then show ?case by simp
next
  case (Cons a S)
  show ?case
  proof (cases "f a \<le> b")
    case True
    with Cons show ?thesis by simp
  next
    case False
    with Cons.prems have "y = a \<or> y \<in> set S" by simp
    with Cons.prems(1) have "f a \<le> f y" by auto
    with False show ?thesis by simp
  qed
qed

lemma sorted_insert_between:
  fixes f :: "'a \<Rightarrow> int"
  assumes "sorted (map f S)"
  shows "sorted (map f (takeWhile (\<lambda>x. f x \<le> b) S) @ b # map f (dropWhile (\<lambda>x. f x \<le> b) S))"
  using assms
proof (induction S)
  case Nil
  then show ?case by simp
next
  case (Cons a S)
  show ?case
  proof (cases "f a \<le> b")
    case True
    from Cons have IH: "sorted (map f (takeWhile (\<lambda>x. f x \<le> b) S) @ b # map f (dropWhile (\<lambda>x. f x \<le> b) S))"
      by simp
    have "f a \<le> z" if "z \<in> set (map f (takeWhile (\<lambda>x. f x \<le> b) S) @ b # map f (dropWhile (\<lambda>x. f x \<le> b) S))" for z
    proof -
      from that consider "z \<in> f ` set (takeWhile (\<lambda>x. f x \<le> b) S)" | "z = b"
        | "z \<in> f ` set (dropWhile (\<lambda>x. f x \<le> b) S)" by auto
      then show ?thesis
      proof cases
        case 1
        then have "z \<in> f ` set S" by (auto dest: set_takeWhileD)
        with Cons.prems show ?thesis by auto
      next
        case 2
        with True show ?thesis by simp
      next
        case 3
        then have "z \<in> f ` set S" by (auto dest: set_dropWhileD)
        with Cons.prems show ?thesis by auto
      qed
    qed
    with IH True show ?thesis by simp
  next
    case False
    with Cons.prems show ?thesis by auto
  qed
qed

lemma sort_key_resort:
  "sort_key f (sort_key f xs @ ys) = sort_key f (xs @ ys)"
proof (rule properties_for_sort_key)
  show "mset (sort_key f (xs @ ys)) = mset (sort_key f xs @ ys)" by simp
  show "sorted (map f (sort_key f (xs @ ys)))" by simp
  fix k
  have "filter (\<lambda>x. f x = f k) (sort_key f (xs @ ys)) = filter (\<lambda>x. f x = f k) (sort_key f xs @ ys)"
    by (simp add: sort_key_stable)
  then show "filter (\<lambda>x. f k = f x) (sort_key f (xs @ ys)) = filter (\<lambda>x. f k = f x) (sort_key f xs @ ys)"
    by (simp add: eq_commute)
qed

lemma filter_takeWhile_dropWhile:
  "filter Q (takeWhile P S) @ filter Q (dropWhile P S) = filter Q S"
proof -
  have "filter Q (takeWhile P S) @ filter Q (dropWhile P S) = filter Q (takeWhile P S @ dropWhile P S)"
    by (simp only: filter_append)
  then show ?thesis
    by (simp only: takeWhile_dropWhile_id)
qed

lemma sort_key_snoc_sorted:
  fixes f :: "'a \<Rightarrow> int"
  assumes "sorted (map f S)"
  shows "sort_key f (S @ [m])
           = takeWhile (\<lambda>x. f x \<le> f m) S @ m # dropWhile (\<lambda>x. f x \<le> f m) S"
proof (rule properties_for_sort_key)
  show "mset (takeWhile (\<lambda>x. f x \<le> f m) S @ m # dropWhile (\<lambda>x. f x \<le> f m) S) = mset (S @ [m])"
    using mset_takeWhile_dropWhile [of "\<lambda>x. f x \<le> f m" S] by simp
  show "sorted (map f (takeWhile (\<lambda>x. f x \<le> f m) S @ m # dropWhile (\<lambda>x. f x \<le> f m) S))"
    using sorted_insert_between [OF assms, of "f m"] by simp
  fix k
  have tail: "filter (\<lambda>x. f k = f x) (m # dropWhile (\<lambda>x. f x \<le> f m) S)
          = filter (\<lambda>x. f k = f x) (dropWhile (\<lambda>x. f x \<le> f m) S) @ filter (\<lambda>x. f k = f x) [m]"
  proof (cases "f k = f m")
    case True
    have "f k \<noteq> f y" if "y \<in> set (dropWhile (\<lambda>x. f x \<le> f m) S)" for y
      using dropWhile_above [OF assms that] True by simp
    then have "filter (\<lambda>x. f k = f x) (dropWhile (\<lambda>x. f x \<le> f m) S) = []"
      by (simp only: filter_empty_conv) blast
    with True show ?thesis by simp
  next
    case False
    then show ?thesis by simp
  qed
  have "filter (\<lambda>x. f k = f x) (takeWhile (\<lambda>x. f x \<le> f m) S @ m # dropWhile (\<lambda>x. f x \<le> f m) S)
          = (filter (\<lambda>x. f k = f x) (takeWhile (\<lambda>x. f x \<le> f m) S)
             @ filter (\<lambda>x. f k = f x) (dropWhile (\<lambda>x. f x \<le> f m) S))
            @ filter (\<lambda>x. f k = f x) [m]"
    by (simp only: filter_append tail append_assoc)
  also have "\<dots> = filter (\<lambda>x. f k = f x) S @ filter (\<lambda>x. f k = f x) [m]"
    by (simp only: filter_takeWhile_dropWhile)
  finally show "filter (\<lambda>x. f k = f x) (takeWhile (\<lambda>x. f x \<le> f m) S @ m # dropWhile (\<lambda>x. f x \<le> f m) S)
          = filter (\<lambda>x. f k = f x) (S @ [m])"
    by (simp only: filter_append)
qed

text \<open>
  \<open>register\<close> of a module with a new name inserts the name after the last module whose
  effective priority is not greater; registering modules of distinct names one after the
  other leaves them in the order of a stable sort by effective priority.
\<close>

lemma map_of_obj_set: "map_of (obj_set k v kvs) = (map_of kvs)(k \<mapsto> v)"
  by (induction kvs) auto

lemma insertIndex_takeWhile:
  assumes "\<forall>n\<in>set order. \<exists>e. map_of mods n = Some e"
  shows "insertIndex mods p order i
           = Inr (i + length (takeWhile
                   (\<lambda>n. \<not> p < effective (the (map_of mods n))) order))"
  using assms by (induction order arbitrary: i) (auto simp: effective_def)

lemma register_new:
  assumes nm: "name m \<noteq> []" and pm: "process_method m \<noteq> None"
    and order: "processingOrder mgr = map name S"
    and lookup: "\<forall>x\<in>set S. map_of (modules mgr) (name x) = Some x"
    and fresh: "name m \<notin> name ` set S"
  shows "register m mgr =
           Inr \<lparr> modules = obj_set (name m) m (modules mgr),
                 processingOrder =
                   map name (takeWhile (\<lambda>x. effective x \<le> effective m) S @ m
                             # dropWhile (\<lambda>x. effective x \<le> effective m) S) \<rparr>"
proof -
  let ?mods = "obj_set (name m) m (modules mgr)"
  let ?P = "\<lambda>n. \<not> effective m < effective (the (map_of ?mods n))"
  have look: "map_of ?mods (name x) = Some x" if "x \<in> set S" for x
  proof -
    from that have "name x \<in> name ` set S" by (rule imageI)
    with fresh have "name x \<noteq> name m" by metis
    with that lookup show ?thesis by (simp add: map_of_obj_set)
  qed
  then have all: "\<forall>n\<in>set (processingOrder mgr). \<exists>e. map_of ?mods n = Some e"
    by (auto simp: order)
  have P: "(?P \<circ> name) x = (effective x \<le> effective m)" if "x \<in> set S" for x
    using look [OF that] by (simp add: not_less)
  have tw: "takeWhile ?P (map name S) = map name (takeWhile (\<lambda>x. effective x \<le> effective m) S)"
    unfolding takeWhile_map using P by (intro arg_cong [where f = "map name"] takeWhile_cong) auto
  have dw: "dropWhile ?P (map name S) = map name (dropWhile (\<lambda>x. effective x \<le> effective m) S)"
    unfolding dropWhile_map using P by (intro arg_cong [where f = "map name"] dropWhile_cong) auto
  have idx: "insertIndex ?mods (effective m) (processingOrder mgr) 0
               = Inr (length (takeWhile ?P (map name S)))"
    using insertIndex_takeWhile [OF all, of "effective m" 0] by (simp add: order)
  have "take (length (takeWhile ?P (map name S))) (map name S) = takeWhile ?P (map name S)"
    by (simp add: takeWhile_eq_take [symmetric])
  moreover have "drop (length (takeWhile ?P (map name S))) (map name S) = dropWhile ?P (map name S)"
    by (simp add: dropWhile_eq_drop [symmetric])
  ultimately show ?thesis
    using nm pm fresh idx
    by (simp add: register_def Let_def order effective_def [symmetric] tw dw)
qed

lemma register_all_snoc:
  "register_all (ms @ [m]) mgr =
     (case register_all ms mgr of Inl e \<Rightarrow> Inl e | Inr g \<Rightarrow> register m g)"
  by (simp add: register_all_def)

lemma register_all_sorted:
  assumes "distinct (map name regs)"
    and "\<forall>m\<in>set regs. name m \<noteq> [] \<and> process_method m \<noteq> None"
  shows "\<exists>mgr. register_all regs new_manager = Inr mgr \<and>
           processingOrder mgr = map name (sort_key effective regs) \<and>
           (\<forall>x\<in>set regs. map_of (modules mgr) (name x) = Some x)"
  using assms
proof (induction regs rule: rev_induct)
  case Nil
  then show ?case by (simp add: register_all_def new_manager_def)
next
  case (snoc m regs)
  from snoc.prems have d: "distinct (map name regs)" and fresh: "name m \<notin> name ` set regs"
    and ok: "\<forall>m\<in>set regs. name m \<noteq> [] \<and> process_method m \<noteq> None"
    and okm: "name m \<noteq> []" "process_method m \<noteq> None"
    by auto
  from snoc.IH [OF d ok] obtain mgr where mgr: "register_all regs new_manager = Inr mgr"
    and order: "processingOrder mgr = map name (sort_key effective regs)"
    and lookup: "\<forall>x\<in>set regs. map_of (modules mgr) (name x) = Some x"
    by blast
  let ?S = "sort_key effective regs"
  have reg: "register m mgr =
           Inr \<lparr> modules = obj_set (name m) m (modules mgr),
                 processingOrder =
                   map name (takeWhile (\<lambda>x. effective x \<le> effective m) ?S @ m
                             # dropWhile (\<lambda>x. effective x \<le> effective m) ?S) \<rparr>"
    using okm order lookup fresh by (intro register_new) simp_all
  have "takeWhile (\<lambda>x. effective x \<le> effective m) ?S @ m # dropWhile (\<lambda>x. effective x \<le> effective m) ?S
          = sort_key effective (?S @ [m])"
    by (rule sort_key_snoc_sorted [symmetric]) simp
  also have "\<dots> = sort_key effective (regs @ [m])"
    by (rule sort_key_resort)
  finally have sorted: "takeWhile (\<lambda>x. effective x \<le> effective m) ?S @ m
      # dropWhile (\<lambda>x. effective x \<le> effective m) ?S = sort_key effective (regs @ [m])" .
  have look: "map_of (obj_set (name m) m (modules mgr)) (name x) = Some x" if "x \<in> set (regs @ [m])" for x
  proof (cases "x = m")
    case True
    then show ?thesis by (simp add: map_of_obj_set)
  next
    case False
    with that have x: "x \<in> set regs" by simp
    then have "name x \<in> name ` set regs" by (rule imageI)
    with fresh have "name x \<noteq> name m" by metis
    with x lookup show ?thesis by (simp add: map_of_obj_set)
  qed
  show ?case
    unfolding register_all_snoc mgr
    using reg sorted look by simp
qed

text \<open>
  \<open>NewTemplaterCore.attachModule\<close>, called for one module after the other, leaves the
  modules in the order of a stable sort by priority.
\<close>

lemma attachModule_all:
  "foldl (\<lambda>ms m. attachModule m ms) [] regs = sort_key bm_priority regs"
  by (induction regs rule: rev_induct) (simp_all add: attachModule_def sort_key_resort)

text \<open>
  C7.  \<open>ModuleManager.register\<close> reads the priority as \<open>module.priority || 100\<close>, so a module
  registered with priority 0 is placed as if its priority were 100: after a module of
  priority 50 registered before it.
\<close>

theorem register_priority_zero:
  "map_sum id processingOrder
     (register_all [simple_module ''a'' (Some 50), simple_module ''b'' (Some 0)] new_manager)
     = Inr [''a'', ''b'']"
  by code_simp

subsection \<open>Conditions\<close>

lemma split_go_skip: "split_go sep k acc s = split_go sep 0 acc (drop k s)"
proof (induction s arbitrary: k)
  case Nil
  then show ?case by simp
next
  case (Cons c cs)
  show ?case
  proof (cases k)
    case 0
    then show ?thesis by simp
  next
    case (Suc j)
    then show ?thesis using Cons.IH [of j] by simp
  qed
qed

lemma indexOf_Some_0: "indexOf s p = Some 0 \<longleftrightarrow> startsWith s p"
  by (cases s) (auto simp: startsWith_def)

lemma split_go_none:
  "indexOf s sep = None \<Longrightarrow> split_go sep 0 acc s = [rev acc @ s]"
proof (induction s arbitrary: acc)
  case Nil
  then show ?case by simp
next
  case (Cons c cs)
  then show ?case by (auto split: if_splits)
qed

lemma split_go_some:
  "indexOf s sep = Some i \<Longrightarrow> sep \<noteq> [] \<Longrightarrow>
   split_go sep 0 acc s = (rev acc @ take i s) # split_go sep 0 [] (drop (i + length sep) s)"
proof (induction s arbitrary: acc i)
  case Nil
  then show ?case by (simp split: if_splits)
next
  case (Cons c cs)
  show ?case
  proof (cases "startsWith (c # cs) sep")
    case True
    with Cons.prems have "i = 0" by simp
    with True Cons.prems show ?thesis
      using split_go_skip [of sep "length sep - 1" "[]" cs]
      by (cases sep) simp_all
  next
    case False
    with Cons.prems obtain j where j: "indexOf cs sep = Some j" "i = Suc j"
      by auto
    with False Cons.IH [OF j(1) Cons.prems(2), of "c # acc"] show ?thesis
      by simp
  qed
qed

lemma split_none: "sep \<noteq> [] \<Longrightarrow> indexOf s sep = None \<Longrightarrow> split s sep = [s]"
  by (simp add: split_def split_go_none)

lemma split_some:
  "sep \<noteq> [] \<Longrightarrow> indexOf s sep = Some i \<Longrightarrow>
   split s sep = take i s # split (drop (i + length sep) s) sep"
  by (simp add: split_def split_go_some)

lemma split_once:
  assumes "sep \<noteq> []" and "indexOf s sep = Some i"
    and "\<not> includes_str (drop (i + length sep) s) sep"
  shows "split s sep = [take i s, drop (i + length sep) s]"
  using assms by (simp add: split_some split_none includes_str_def)

lemma evaluate_ops_find:
  "evaluate_ops rt ops expr context =
     (case List.find (includes_str expr) ops of
        Some op \<Rightarrow>
          (case map trim (split expr op) of
             left # right # _ \<Rightarrow>
               (case getValue rt left context of
                  Inl e \<Rightarrow> Inl e
                | Inr leftValue \<Rightarrow> compare rt op leftValue (parseValue rt right context))
           | _ \<Rightarrow> Inl (TypeError ''Cannot read properties of undefined''))
      | None \<Rightarrow>
          (case getValue rt expr context of Inl e \<Rightarrow> Inl e | Inr v \<Rightarrow> Inr (truthy rt v)))"
  by (induction ops) simp_all

lemma find_operator_nonempty:
  "List.find P operators = Some op \<Longrightarrow> op \<noteq> []"
  by (auto simp: operators_def split: if_splits)

lemma startsWith_single: "startsWith v [c] = (v \<noteq> [] \<and> hd v = c)"
  by (cases v) (simp_all add: startsWith_def)

lemma endsWith_single: "endsWith v [c] = (v \<noteq> [] \<and> last v = c)"
  by (cases v rule: rev_cases) (simp_all add: endsWith_def)

lemma slice_butlast_tl: "slice_1_minus_1 v = butlast (tl v)"
  by (simp add: slice_1_minus_1_def butlast_conv_take drop_Suc numeral_2_eq_2)

lemma parseValue_spec: "parseValue rt v context = spec_parseValue rt v context"
  unfolding parseValue_def spec_parseValue_def quoted_literal_def number_literal_def
    boolean_literal_def context_path_def
  by (auto simp: startsWith_single endsWith_single slice_butlast_tl List.map_filter_simps
      split: sum.splits)

lemma evaluateCondition_single:
  assumes "single_comparison expr"
  shows "evaluateCondition rt expr context = spec_evaluateCondition rt expr context"
proof (cases "List.find (includes_str expr) operators")
  case None
  then show ?thesis
    by (simp add: evaluateCondition_def spec_evaluateCondition_def evaluate_ops_find
        split: sum.splits)
next
  case (Some op)
  then have "includes_str expr op" by (auto simp: find_Some_iff)
  then obtain i where i: "indexOf expr op = Some i"
    by (auto simp: includes_str_def)
  from Some have ne: "op \<noteq> []" by (rule find_operator_nonempty)
  from assms Some i have "\<not> includes_str (drop (i + length op) expr) op"
    by (simp add: single_comparison_def)
  with ne i have "split expr op = [take i expr, drop (i + length op) expr]"
    by (simp add: split_once)
  with Some i show ?thesis
    by (simp add: evaluateCondition_def spec_evaluateCondition_def evaluate_ops_find
        split_first_def parseValue_spec split: sum.splits)
qed

lemma condition_examples:
  "evaluateCondition example_runtime (''name == '' @ [CHR 0x22] @ ''Ann'' @ [CHR 0x22])
     (VObj [(''name'', VStr ''Ann'')])"
  "evaluateCondition example_runtime ''age >= 18'' (VObj [(''age'', VNum (NInt 21))])"
  "evaluateCondition example_runtime ''flag == true'' (VObj [(''flag'', VBool True)])"
  "\<not> evaluateCondition example_runtime ''flag == true'' (VObj [(''flag'', VStr ''true'')])"
  "evaluateCondition example_runtime ''a == b'' (VObj [(''a'', VNum (NInt 1)), (''b'', VNum (NInt 1))])"
  "\<not> evaluateCondition example_runtime ''a == b'' (VObj [(''a'', VNum (NInt 1)), (''b'', VNum (NInt 2))])"
  "evaluateCondition example_runtime ''a == b'' (VObj [(''a'', VStr ''b'')])"
  by code_simp+

text \<open>
  C4 (as amended).  \<open>_evaluateCondition\<close> takes the first operator of the list
  \<open>==, !=, >=, <=, >, <\<close> that occurs in the expression, splits the expression at every
  occurrence of it and takes the first two pieces, trimmed, as left and right: left is
  resolved as a context path, right goes through \<open>_parseValue\<close>, which parses it as the
  specification says: quoted string, then number, then boolean, then context path, then
  literal string.  Without an operator the expression is resolved and tested for
  truthiness.  Whatever throws on the way makes the answer \<open>false\<close>; the options play no
  part.  When the operator occurs once, this is the split into the text before and after it
  that the specification describes.
\<close>

theorem evaluateCondition_scan:
  "evaluateCondition rt expr context =
     (case List.find (includes_str expr) [''=='', ''!='', ''>='', ''<='', ''>'', ''<''] of
        Some op \<Rightarrow>
          (case map trim (split expr op) of
             left # right # _ \<Rightarrow>
               (case getValue rt left context of
                  Inl e \<Rightarrow> False
                | Inr leftValue \<Rightarrow>
                    (case compare rt op leftValue (parseValue rt right context) of
                       Inl e \<Rightarrow> False
                     | Inr b \<Rightarrow> b))
           | _ \<Rightarrow> False)
      | None \<Rightarrow>
          (case getValue rt expr context of Inl e \<Rightarrow> False | Inr v \<Rightarrow> truthy rt v)) \<and>
   parseValue rt v context = spec_parseValue rt v context \<and>
   (single_comparison expr \<longrightarrow>
      evaluateCondition rt expr context = spec_evaluateCondition rt expr context)"
proof -
  have "evaluateCondition rt expr context =
     (case List.find (includes_str expr) operators of
        Some op \<Rightarrow>
          (case map trim (split expr op) of
             left # right # _ \<Rightarrow>
               (case getValue rt left context of
                  Inl e \<Rightarrow> False
                | Inr leftValue \<Rightarrow>
                    (case compare rt op leftValue (parseValue rt right context) of
                       Inl e \<Rightarrow> False
                     | Inr b \<Rightarrow> b))
           | _ \<Rightarrow> False)
      | None \<Rightarrow>
          (case getValue rt expr context of Inl e \<Rightarrow> False | Inr v \<Rightarrow> truthy rt v))"
    by (simp add: evaluateCondition_def evaluate_ops_find split: option.splits list.splits sum.splits)
  then show ?thesis
    using evaluateCondition_single [of expr rt "context"] parseValue_spec [of rt v "context"]
    by (simp add: operators_def)
qed

theorem evaluateCondition_scan_witness:
  "single_comparison ''age>=18'' \<and>
   evaluateCondition example_runtime ''age>=18'' (VObj [(''age'', VNum (NInt 15))])
     = spec_evaluateCondition example_runtime ''age>=18'' (VObj [(''age'', VNum (NInt 15))]) \<and>
   spec_parseValue example_runtime ''true'' (VObj [(''true'', VNum (NInt 7))]) = Data (VBool True) \<and>
   spec_evaluateCondition example_runtime ''flag == true'' (VObj [(''flag'', VBool True)]) \<and>
   spec_evaluateCondition example_runtime ''a == b''
     (VObj [(''a'', VNum (NInt 1)), (''b'', VNum (NInt 1))]) \<and>
   \<not> spec_evaluateCondition example_runtime ''a == b''
     (VObj [(''a'', VNum (NInt 1)), (''b'', VNum (NInt 2))])"
proof -
  have h: "single_comparison ''age>=18''" "single_comparison ''flag == true''"
    "single_comparison ''a == b''"
    by code_simp+
  have p: "parseValue example_runtime ''true'' (VObj [(''true'', VNum (NInt 7))]) = Data (VBool True)"
    by code_simp
  from h(1) evaluateCondition_scan [of example_runtime "''age>=18''" "VObj [(''age'', VNum (NInt 15))]"]
  have 1: "evaluateCondition example_runtime ''age>=18'' (VObj [(''age'', VNum (NInt 15))])
     = spec_evaluateCondition example_runtime ''age>=18'' (VObj [(''age'', VNum (NInt 15))])"
    by blast
  from p evaluateCondition_scan [of example_runtime "''x''" "VObj [(''true'', VNum (NInt 7))]" "''true''"]
  have 2: "spec_parseValue example_runtime ''true'' (VObj [(''true'', VNum (NInt 7))]) = Data (VBool True)"
    by simp
  from h(2) condition_examples(3)
    evaluateCondition_scan [of example_runtime "''flag == true''" "VObj [(''flag'', VBool True)]"]
  have 3: "spec_evaluateCondition example_runtime ''flag == true'' (VObj [(''flag'', VBool True)])"
    by blast
  from h(3) condition_examples(5)
    evaluateCondition_scan [of example_runtime "''a == b''"
      "VObj [(''a'', VNum (NInt 1)), (''b'', VNum (NInt 1))]"]
  have 4: "spec_evaluateCondition example_runtime ''a == b''
     (VObj [(''a'', VNum (NInt 1)), (''b'', VNum (NInt 1))])"
    by blast
  from h(3) condition_examples(6)
    evaluateCondition_scan [of example_runtime "''a == b''"
      "VObj [(''a'', VNum (NInt 1)), (''b'', VNum (NInt 2))]"]
  have 5: "\<not> spec_evaluateCondition example_runtime ''a == b''
     (VObj [(''a'', VNum (NInt 1)), (''b'', VNum (NInt 2))])"
    by blast
  from h(1) 1 2 3 4 5 show ?thesis by blast
qed

theorem evaluateCondition_repeated_operator_counterexample:
  "evaluateCondition example_runtime ''a==1==2'' (VObj [(''a'', VNum (NInt 1))]) = True \<and>
   spec_evaluateCondition example_runtime ''a==1==2'' (VObj [(''a'', VNum (NInt 1))]) = False"
  by code_simp

subsection \<open>The tokenizers\<close>

text \<open>
  A match leaves a suffix of the text, and a pattern that begins with a literal consumes at
  least this literal.  So every match that \<open>exec_all\<close> reports for such a pattern is
  non-empty and lies inside the text, as \<open>lastIndex\<close> requires for the loop over
  \<open>exec\<close> to advance; all the patterns of the sources begin with a literal.
\<close>

lemma rmatch_length: "m \<in> set (rmatch r s) \<Longrightarrow> length (snd m) \<le> length s"
proof (induction r s arbitrary: m rule: rmatch.induct)
  case (8 r rs s)
  then obtain m1 m2 where m1: "m1 \<in> set (rmatch r s)" and m2: "m2 \<in> set (rmatch (Seq rs) (snd m1))"
    and m: "snd m = snd m2"
    by auto
  from 8(1) [OF m1] have "length (snd m1) \<le> length s" .
  moreover from 8(2) [OF m1 m2] have "length (snd m2) \<le> length (snd m1)" .
  ultimately show ?case using m by simp
qed (auto split: if_splits)

lemma rmatch_literal_first:
  assumes "m \<in> set (rmatch (Seq (Lit l # rs)) s)"
  shows "length (snd m) + length l \<le> length s"
proof -
  from assms have sw: "startsWith s l" and "m \<in> (\<lambda>m'. (fst m', snd m')) ` set (rmatch (Seq rs) (drop (length l) s))"
    by (auto split: if_splits)
  then obtain m' where "m' \<in> set (rmatch (Seq rs) (drop (length l) s))" and "snd m = snd m'"
    by auto
  with rmatch_length [of m' "Seq rs" "drop (length l) s"]
  have "length (snd m) \<le> length s - length l" by simp
  moreover from sw have "length l \<le> length s"
    by (auto simp: startsWith_def dest: arg_cong [where f = length])
  ultimately show ?thesis by simp
qed

lemma exec_all_bounds:
  assumes "\<forall>s m. m \<in> set (rmatch r s) \<longrightarrow> length (snd m) < length s"
    and "x \<in> set (exec_all r skip i s)"
  shows "rx_text x \<noteq> [] \<and> i \<le> rx_index x \<and> rx_index x + length (rx_text x) \<le> i + length s"
  using assms
proof (induction r skip i s rule: exec_all.induct)
  case (1 r skip i)
  then show ?case by simp
next
  case (2 r skip i c cs)
  note pos = "2.prems"(1) and x = "2.prems"(2)
  show ?case
  proof (cases "0 < skip")
    case True
    with x have "x \<in> set (exec_all r (skip - 1) (Suc i) cs)" by simp
    from "2.IH"(1) [OF True pos this] show ?thesis by simp
  next
    case False
    show ?thesis
    proof (cases "rmatch r (c # cs)")
      case Nil
      with False x have "x \<in> set (exec_all r 0 (Suc i) cs)" by simp
      from "2.IH"(2) [OF False Nil pos this] show ?thesis by simp
    next
      case (Cons m ms)
      then have "m \<in> set (rmatch r (c # cs))" by simp
      with pos have len: "length (snd m) < length (c # cs)" by blast
      let ?n = "length (c # cs) - length (snd m)"
      from x False Cons
      have "x = \<lparr> rx_index = i, rx_text = take ?n (c # cs), rx_groups = fst m \<rparr>
            \<or> x \<in> set (exec_all r (?n - 1) (Suc i) cs)"
        by (simp add: Let_def)
      then show ?thesis
      proof
        assume "x = \<lparr> rx_index = i, rx_text = take ?n (c # cs), rx_groups = fst m \<rparr>"
        with len show ?thesis by auto
      next
        assume "x \<in> set (exec_all r (?n - 1) (Suc i) cs)"
        from "2.IH"(3) [OF False Cons refl pos this] show ?thesis by simp
      qed
    qed
  qed
qed

lemma exec_all_nonempty:
  assumes "l \<noteq> []" and "x \<in> set (exec_all (Seq (Lit l # rs)) 0 0 s)"
  shows "rx_text x \<noteq> [] \<and> rx_index x + length (rx_text x) \<le> length s"
proof -
  have "length (snd m) < length s'" if "m \<in> set (rmatch (Seq (Lit l # rs)) s')" for s' m
    using rmatch_literal_first [OF that] assms(1) by (cases l) auto
  then have "\<forall>s m. m \<in> set (rmatch (Seq (Lit l # rs)) s) \<longrightarrow> length (snd m) < length s"
    by blast
  from exec_all_bounds [OF this assms(2)]
  show ?thesis by simp
qed

lemma unclosed_stuck_step:
  "parse_loop (Suc n) default_tag_options ''Text with {{unclosed tag'' 10 toks
     = parse_loop n default_tag_options ''Text with {{unclosed tag'' 10 (toks @ [TagText []])"
proof -
  have r: "substring ''Text with {{unclosed tag'' 10 (length ''Text with {{unclosed tag'') = ''{{unclosed tag''"
    by code_simp
  have m1: "matchTag ''{{unclosed tag'' (opt_rawXmlDelimiter default_tag_options) = None"
    by code_simp
  have m2: "matchTag ''{{unclosed tag'' (opt_moduleDelimiters default_tag_options) = None"
    by code_simp
  have m3: "matchTag ''{{unclosed tag'' (opt_delimiters default_tag_options) = None"
    by code_simp
  have m4: "min_index
              (min_index
                 (findNextDelimiter ''{{unclosed tag'' (d_start (opt_rawXmlDelimiter default_tag_options)))
                 (findNextDelimiter ''{{unclosed tag'' (d_start (opt_moduleDelimiters default_tag_options))))
              (findNextDelimiter ''{{unclosed tag'' (d_start (opt_delimiters default_tag_options))) = Some 0"
    by code_simp
  have s0: "substring ''{{unclosed tag'' 0 0 = []"
    by (simp add: substring_def)
  show ?thesis
    by (simp only: parse_loop.simps r m1 m2 m3 m4 s0 Let_def option.case add_0_right)
       simp
qed

lemma unclosed_stuck: "parse_loop n default_tag_options ''Text with {{unclosed tag'' 10 toks = None"
proof (induction n arbitrary: toks)
  case 0
  then show ?case by simp
next
  case (Suc n)
  then show ?case by (simp only: unclosed_stuck_step)
qed

lemma unclosed_first_step:
  "parse_loop (Suc n) default_tag_options ''Text with {{unclosed tag'' 0 []
     = parse_loop n default_tag_options ''Text with {{unclosed tag'' 10 [TagText ''Text with '']"
proof -
  have r: "substring ''Text with {{unclosed tag'' 0 (length ''Text with {{unclosed tag'') = ''Text with {{unclosed tag''"
    by code_simp
  have m1: "matchTag ''Text with {{unclosed tag'' (opt_rawXmlDelimiter default_tag_options) = None"
    by code_simp
  have m2: "matchTag ''Text with {{unclosed tag'' (opt_moduleDelimiters default_tag_options) = None"
    by code_simp
  have m3: "matchTag ''Text with {{unclosed tag'' (opt_delimiters default_tag_options) = None"
    by code_simp
  have m4: "min_index
              (min_index
                 (findNextDelimiter ''Text with {{unclosed tag'' (d_start (opt_rawXmlDelimiter default_tag_options)))
                 (findNextDelimiter ''Text with {{unclosed tag'' (d_start (opt_moduleDelimiters default_tag_options))))
              (findNextDelimiter ''Text with {{unclosed tag'' (d_start (opt_delimiters default_tag_options))) = Some 10"
    by code_simp
  have s0: "substring ''Text with {{unclosed tag'' 0 10 = ''Text with ''"
    by code_simp
  show ?thesis
    by (simp only: parse_loop.simps r m1 m2 m3 m4 s0 Let_def option.case)
       simp
qed

lemma unclosed_never_returns: "tag_parse fuel ''Text with {{unclosed tag'' = None"
proof (cases fuel)
  case 0
  then show ?thesis by (simp add: tag_parse_def)
next
  case (Suc n)
  then show ?thesis
    unfolding tag_parse_def by (simp only: unclosed_first_step unclosed_stuck)
qed

text \<open>
  C1.  \<open>TagParser._matchTag\<close> looks for the opening delimiter anywhere in the rest of the
  input, and \<open>parse\<close> advances the cursor by the length of the match alone.  On
  \<open>Hello {{name}}!\<close> the tokens are a placeholder said to start at 0 and the text
  \<open>name}}!\<close>: the text before the tag is lost and part of the tag comes twice.  On
  \<open>Text with {{unclosed tag\<close> the next delimiter is at distance 0 from the cursor, which
  never moves again: no amount of fuel lets \<open>parse\<close> return.  \<open>TemplateParser.parse\<close>
  returns overlapping tokens for a loop inside a conditional.
\<close>

theorem tag_parse_failures:
  "tag_parse 3 ''Hello {{name}}!''
     = Some [TagPlaceholder ''name'' ''{{name}}'' 0 8, TagText ''name}}!''] \<and>
   (\<forall>fuel. tag_parse fuel ''Text with {{unclosed tag'' = None) \<and>
   map token_raw (parse ''{%if a%}{%loop x in y%}-{%endloop%}{%endif%}'')
     = [''{%if a%}{%loop x in y%}-{%endloop%}{%endif%}'', ''{%loop x in y%}-{%endloop%}'',
        ''{%endif%}'']"
proof -
  have "tag_parse 3 ''Hello {{name}}!''
     = Some [TagPlaceholder ''name'' ''{{name}}'' 0 8, TagText ''name}}!'']"
    by code_simp
  moreover have "map token_raw (parse ''{%if a%}{%loop x in y%}-{%endloop%}{%endif%}'')
     = [''{%if a%}{%loop x in y%}-{%endloop%}{%endif%}'', ''{%loop x in y%}-{%endloop%}'',
        ''{%endif%}'']"
    by code_simp
  ultimately show ?thesis
    using unclosed_never_returns by blast
qed

subsection \<open>The counters of the image and QR code modules\<close>

text \<open>
  Whatever the document type, \<open>process\<close> never lowers the counter, and an asset that
  \<open>_createImageXml\<close> (\<open>_createQrCodeXml\<close>) adds to the archive is named after the counter.
\<close>

lemma createImageXml_counter:
  "imageCounter m \<le> imageCounter (fst (snd (createImageXml env rt m w d pc)))"
  by (simp add: createImageXml_def Let_def split: jsval.splits val.splits sum.splits)

lemma createQrCodeXml_counter:
  "qrCounter m \<le> qrCounter (fst (snd (createQrCodeXml env rt m w d pc)))"
  by (simp add: createQrCodeXml_def Let_def split: sum.splits)

lemma image_step_counter:
  "imageCounter (fst (snd st)) \<le> imageCounter (fst (snd (image_step env rt pc mt st)))"
  by (simp add: image_step_def Let_def createImageXml_counter split: option.splits)

lemma qr_step_counter:
  "qrCounter (fst (snd st)) \<le> qrCounter (fst (snd (qr_step env rt pc mt st)))"
  by (simp add: qr_step_def Let_def createQrCodeXml_counter split: option.splits)

lemma foldl_mono:
  assumes "\<And>st x. f st \<le> (f (step st x) :: nat)"
  shows "f st \<le> f (foldl step st xs)"
proof (induction xs arbitrary: st)
  case Nil
  then show ?case by simp
next
  case (Cons x xs)
  have "f st \<le> f (step st x)" by (rule assms)
  also have "\<dots> \<le> f (foldl step (step st x) xs)" by (rule Cons.IH)
  finally show ?case by simp
qed

lemma image_process_counter:
  "imageCounter m \<le> imageCounter (fst (snd (image_process env rt m w content pc)))"
  unfolding image_process_def
  using foldl_mono [of "\<lambda>st. imageCounter (fst (snd st))" "\<lambda>st mt. image_step env rt pc mt st"
      "(content, m, w)" "exec_all image_re 0 0 content"]
  by (simp add: image_step_counter)

lemma qr_process_counter:
  "qrCounter m \<le> qrCounter (fst (snd (qr_process env rt m w content pc)))"
  unfolding qr_process_def
  using foldl_mono [of "\<lambda>st. qrCounter (fst (snd st))" "\<lambda>st mt. qr_step env rt pc mt st"
      "(content, m, w)" "exec_all qrcode_re 0 0 content"]
  by (simp add: qr_step_counter)












text \<open>
  Called by hand for a document type that the module does not support, \<open>process\<close> does
  move the counter; the module manager does not make this call.
\<close>

lemma image_process_unsupported_type:
  "snd (image_process example_env example_runtime new_ImageModule empty_world ''{%image pic%}''
          (pic_context ''xlsx''))
     = (\<lparr> imageCounter = 2 \<rparr>, \<lparr> zip_media = [(''image1.png'', ''rId1001'')], warnings = [] \<rparr>)"
  by code_simp



end
